theory Spec2Isabelle
  imports Main "HOL-Library.Word" "HOL-Library.AList"
begin

section \<open>Data model of the directory modification handler\<close>

text \<open>
  The development embeds \<^verbatim>\<open>ShellBrowser/DirectoryModificationHandler.cpp\<close>:
  the handlers \<^verbatim>\<open>OnFileAdded\<close>, \<^verbatim>\<open>OnFileRemoved\<close>, \<^verbatim>\<open>OnFileModified\<close>,
  \<^verbatim>\<open>OnFileRenamedOldName\<close>, \<^verbatim>\<open>OnFileRenamedNewName\<close>, \<^verbatim>\<open>RenameItem\<close> and
  the batch routine \<^verbatim>\<open>DirectoryAltered\<close>. Object state is passed explicitly as a
  record; a C++ exception (\<^verbatim>\<open>std::out_of_range\<close> thrown by \<^verbatim>\<open>m_itemInfoMap.at\<close>)
  is the result \<open>None\<close>.

  Internal item ids and list view indices are C++ \<^verbatim>\<open>int\<close> with the sentinel \<open>-1\<close>;
  they are modelled as \<open>int\<close> (no handler does arithmetic on them that could
  overflow below \<open>2^31\<close> items). File sizes are two 32-bit halves combined into a
  64-bit \<^verbatim>\<open>ULARGE_INTEGER\<close>; the directory counters are 64-bit words, so additions
  and subtractions wrap as in the source.

  Purely visual effects (redraw locking, icon overlays, the cut/ghost state, column
  tasks, group membership, scrolling, messages to the owner window) change nothing the
  handlers read back and are left out.
\<close>

record WIN32_FIND_DATA =
  cFileName :: string
  dwFileAttributes :: "32 word"
  nFileSizeHigh :: "32 word"
  nFileSizeLow :: "32 word"

record ItemInfo_t =
  wfd :: WIN32_FIND_DATA

text \<open>\<^verbatim>\<open>ulFileSize.LowPart = nFileSizeLow; ulFileSize.HighPart = nFileSizeHigh;\<close>
  followed by a read of \<^verbatim>\<open>ulFileSize.QuadPart\<close>.\<close>

definition QuadPart :: "WIN32_FIND_DATA \<Rightarrow> 64 word" where
  "QuadPart d = push_bit 32 (ucast (nFileSizeHigh d)) + ucast (nFileSizeLow d)"

record AlteredFile_t =
  szFileName :: string
  dwAction :: "32 word"
  iFolderIndex :: int

definition FILE_ACTION_ADDED :: "32 word" where "FILE_ACTION_ADDED = 1"
definition FILE_ACTION_REMOVED :: "32 word" where "FILE_ACTION_REMOVED = 2"
definition FILE_ACTION_MODIFIED :: "32 word" where "FILE_ACTION_MODIFIED = 3"
definition FILE_ACTION_RENAMED_OLD_NAME :: "32 word" where "FILE_ACTION_RENAMED_OLD_NAME = 4"
definition FILE_ACTION_RENAMED_NEW_NAME :: "32 word" where "FILE_ACTION_RENAMED_NEW_NAME = 5"

record AwaitingAdd_t =
  iItemInternal :: int
  iItem :: int
  bPosition :: bool
  iAfter :: int

text \<open>One row of the list view control: its \<^verbatim>\<open>lParam\<close> (the internal id of the item
  it shows) and the two state bits the handlers read or write.\<close>

record ListViewItem =
  lParam :: int
  LVIS_SELECTED :: bool
  LVIS_FOCUSED :: bool

text \<open>Calls made on \<^verbatim>\<open>ListViewHelper\<close>, recorded in call order.\<close>

datatype ListViewCall = SelectItemCall int bool | FocusItemCall int bool

text \<open>
  What the shell and the file system answer while one notification is being handled,
  keyed by the file name relative to the watched directory. \<^verbatim>\<open>StringCchCopy\<close> and
  \<^verbatim>\<open>PathAppend\<close> are the two path-building results that
  \<^verbatim>\<open>OnFileRenamedOldName\<close> checks.
\<close>

text \<open>
  Modelled from the spec: \<^verbatim>\<open>GetItemInformation\<close> and \<^verbatim>\<open>CreateSimplePidl\<close> are
  functions of the repository that are not in the source file; the spec's file system
  query collaborator is \<open>resolve(path) -> Option<Metadata>\<close>, without side effects, so
  both are fields of \<open>Filesystem\<close>, next to the Windows calls. \<^verbatim>\<open>FindFirstFile\<close>
  fills the item's \<^verbatim>\<open>wfd\<close> when it succeeds and leaves it as it was when it fails.
\<close>

record Filesystem =
  SHParseDisplayName :: "string \<Rightarrow> bool"
  SHBindToParent :: "string \<Rightarrow> bool"
  GetItemInformation :: "string \<Rightarrow> ItemInfo_t option"
  FindFirstFile :: "string \<Rightarrow> WIN32_FIND_DATA option"
  StringCchCopy :: bool
  PathAppend :: "string \<Rightarrow> bool"
  CreateSimplePidl :: "string \<Rightarrow> bool"

record ShellBrowser =
  m_uniqueFolderId :: int
  m_AlteredList :: "AlteredFile_t list"
  m_FilesAdded :: "string list"
  m_itemInfoMap :: "(int \<times> ItemInfo_t) list"
  awaitingAddList :: "AwaitingAdd_t list"
  totalDirSize :: "64 word"
  fileSelectionSize :: "64 word"
  m_hListView :: "ListViewItem list"
  m_FileSelectionList :: "string list"
  m_DroppedFileNameList :: "string list"
  m_iDropped :: int
  g_bNewFileRenamed :: bool
  g_iRenamedItem :: int
  itemIdCounter :: int
  insertSorted :: bool
  IsFileFiltered :: "ItemInfo_t \<Rightarrow> bool"
  SortStub :: "(int \<times> ItemInfo_t) list \<Rightarrow> int \<Rightarrow> int \<Rightarrow> bool"
  lvCalls :: "ListViewCall list"

text \<open>
  \<open>m_FilesAdded\<close> is the \<^verbatim>\<open>std::list<Added_t>\<close> of the source, whose elements hold
  only a file name; \<open>m_DroppedFileNameList\<close> likewise keeps the names. The two
  file-level globals \<open>g_bNewFileRenamed\<close> and \<open>g_iRenamedItem\<close> are fields of the
  state. \<open>m_itemInfoMap\<close> is an association list read through \<open>map_of\<close>.
  \<open>IsFileFiltered\<close> (the active filter) and \<open>SortStub\<close> (the sort comparator:
  \<open>SortStub m a b\<close> when the item with id \<open>a\<close> is ordered before or level with
  \<open>b\<close>) are declared outside the source file and taken as parameters.
\<close>

section \<open>List view primitives\<close>

fun first_index :: "('a \<Rightarrow> bool) \<Rightarrow> 'a list \<Rightarrow> int" where
  "first_index P [] = -1"
| "first_index P (x # xs) =
     (if P x then 0 else (let r = first_index P xs in if r = -1 then -1 else r + 1))"

definition lv_valid :: "ListViewItem list \<Rightarrow> int \<Rightarrow> bool" where
  "lv_valid lv i = (0 \<le> i \<and> i < int (length lv))"

text \<open>\<^verbatim>\<open>ListView_GetItem\<close> with \<^verbatim>\<open>LVIF_PARAM\<close>: the row's \<^verbatim>\<open>lParam\<close>, or failure.\<close>

definition ListView_GetItem :: "ListViewItem list \<Rightarrow> int \<Rightarrow> int option" where
  "ListView_GetItem lv i = (if lv_valid lv i then Some (lParam (lv ! nat i)) else None)"

text \<open>\<^verbatim>\<open>ListView_GetItemState(h, i, LVIS_SELECTED) == LVIS_SELECTED\<close>; no row has
  index \<open>-1\<close>, for which the control reports state 0.\<close>

definition ListView_IsSelected :: "ListViewItem list \<Rightarrow> int \<Rightarrow> bool" where
  "ListView_IsSelected lv i = (lv_valid lv i \<and> LVIS_SELECTED (lv ! nat i))"

definition ListView_InsertItem :: "int \<Rightarrow> ListViewItem \<Rightarrow> ListViewItem list \<Rightarrow> ListViewItem list" where
  "ListView_InsertItem i row lv =
     (if 0 \<le> i \<and> i \<le> int (length lv) then take (nat i) lv @ row # drop (nat i) lv else lv)"

definition ListView_DeleteItem :: "int \<Rightarrow> ListViewItem list \<Rightarrow> ListViewItem list" where
  "ListView_DeleteItem i lv =
     (if lv_valid lv i then take (nat i) lv @ drop (Suc (nat i)) lv else lv)"

definition new_row :: "int \<Rightarrow> ListViewItem" where
  "new_row ident = \<lparr>lParam = ident, LVIS_SELECTED = False, LVIS_FOCUSED = False\<rparr>"

section \<open>Helpers of the repository that are outside the source file\<close>

definition item_name :: "(int \<times> ItemInfo_t) list \<Rightarrow> int \<Rightarrow> string option" where
  "item_name m ident = map_option (\<lambda>info. cFileName (wfd info)) (map_of m ident)"

text \<open>
  Modelled from the spec: \<^verbatim>\<open>LocateFileItemIndex\<close> is not in the source file. The spec
  has the reconciler probe the current presentation list by name; the result is the
  index of the first row whose item bears the name, or \<open>-1\<close>.
\<close>

definition LocateFileItemIndex :: "ShellBrowser \<Rightarrow> string \<Rightarrow> int" where
  "LocateFileItemIndex s name =
     first_index (\<lambda>row. item_name (m_itemInfoMap s) (lParam row) = Some name) (m_hListView s)"

text \<open>
  Modelled from the spec: \<^verbatim>\<open>LocateFileItemInternalIndex\<close> is not in the source file.
  For a remove notification the spec says to locate the item by name in the item store;
  the result is the internal id of the first stored item with that name, or \<open>-1\<close>.
\<close>

fun first_named :: "string \<Rightarrow> (int \<times> ItemInfo_t) list \<Rightarrow> int option" where
  "first_named name [] = None"
| "first_named name ((k, info) # m) =
     (if cFileName (wfd info) = name then Some k else first_named name m)"

definition LocateFileItemInternalIndex :: "ShellBrowser \<Rightarrow> string \<Rightarrow> int" where
  "LocateFileItemInternalIndex s name =
     (case first_named name (m_itemInfoMap s) of Some k \<Rightarrow> k | None \<Rightarrow> -1)"

text \<open>
  Modelled from the spec: \<^verbatim>\<open>GetItemInternalIndexForPidl\<close> is not in the source file.
  The spec resolves the old name of a rename to an internal id through an item store
  lookup; the pidl built from the name stands for the name.
\<close>

definition GetItemInternalIndexForPidl :: "ShellBrowser \<Rightarrow> string \<Rightarrow> int option" where
  "GetItemInternalIndexForPidl s name = first_named name (m_itemInfoMap s)"

text \<open>
  Modelled from the spec: \<^verbatim>\<open>LocateItemByInternalIndex\<close> is not in the source file;
  the spec's \<open>locateByInternalId(id) -> Option<presentationPosition>\<close>.
\<close>

definition LocateItemByInternalIndex :: "ShellBrowser \<Rightarrow> int \<Rightarrow> int option" where
  "LocateItemByInternalIndex s ident =
     (let r = first_index (\<lambda>row. lParam row = ident) (m_hListView s)
      in if r = -1 then None else Some r)"

text \<open>
  Modelled from the spec: \<^verbatim>\<open>AddItemInternal\<close> is not in the source file. On a
  successful resolution the spec constructs an item, assigns a fresh internal id,
  inserts it into the item store and queues the id for presentation insertion; the
  total size counter must equal the sum of the stored sizes, so the new size is added
  with the insertion. The call in the source passes no position. The result is empty
  when the item's metadata cannot be obtained.
\<close>

definition AddItemInternal :: "Filesystem \<Rightarrow> string \<Rightarrow> ShellBrowser \<Rightarrow> int option \<times> ShellBrowser" where
  "AddItemInternal fs name s =
     (case GetItemInformation fs name of
        None \<Rightarrow> (None, s)
      | Some info \<Rightarrow>
          (Some (itemIdCounter s),
           s\<lparr>m_itemInfoMap := m_itemInfoMap s @ [(itemIdCounter s, info)],
             awaitingAddList := awaitingAddList s @
               [\<lparr>iItemInternal = itemIdCounter s, iItem = -1, bPosition = False, iAfter = -1\<rparr>],
             totalDirSize := totalDirSize s + QuadPart (wfd info),
             itemIdCounter := itemIdCounter s + 1\<rparr>))"

text \<open>
  Modelled from the spec: \<^verbatim>\<open>DetermineItemSortedPosition\<close> is not in the source file;
  the target position under the ordering of the presentation list is the number of
  leading rows that the comparator orders before the new item.
\<close>

definition DetermineItemSortedPosition :: "ShellBrowser \<Rightarrow> int \<Rightarrow> int" where
  "DetermineItemSortedPosition s ident =
     int (length (takeWhile (\<lambda>row. SortStub s (m_itemInfoMap s) (lParam row) ident) (m_hListView s)))"

text \<open>
  Modelled from the spec: \<^verbatim>\<open>InsertAwaitingItems\<close> is not in the source file; it
  flushes the awaiting list into the presentation list, each item at its explicit
  position when it has one and at the end otherwise, and empties the awaiting list.
\<close>

fun insert_rows :: "AwaitingAdd_t list \<Rightarrow> ListViewItem list \<Rightarrow> ListViewItem list" where
  "insert_rows [] lv = lv"
| "insert_rows (a # as) lv =
     insert_rows as
       (ListView_InsertItem (if bPosition a then iItem a else int (length lv))
          (new_row (iItemInternal a)) lv)"

definition InsertAwaitingItems :: "ShellBrowser \<Rightarrow> ShellBrowser" where
  "InsertAwaitingItems s =
     s\<lparr>m_hListView := insert_rows (awaitingAddList s) (m_hListView s), awaitingAddList := []\<rparr>"

text \<open>
  Modelled from the spec: \<^verbatim>\<open>RemoveItem\<close> is not in the source file; it subtracts the
  item's size from the total, and from the selection size when the item's row is
  selected, deletes the item from the item store and removes its row from the
  presentation list.
\<close>

definition RemoveItem :: "int \<Rightarrow> ShellBrowser \<Rightarrow> ShellBrowser" where
  "RemoveItem ident s =
     (case map_of (m_itemInfoMap s) ident of
        None \<Rightarrow> s
      | Some info \<Rightarrow>
          (case LocateItemByInternalIndex s ident of
             None \<Rightarrow>
               s\<lparr>m_itemInfoMap := AList.delete ident (m_itemInfoMap s),
                 totalDirSize := totalDirSize s - QuadPart (wfd info)\<rparr>
           | Some i \<Rightarrow>
               s\<lparr>m_itemInfoMap := AList.delete ident (m_itemInfoMap s),
                 totalDirSize := totalDirSize s - QuadPart (wfd info),
                 fileSelectionSize :=
                   (if ListView_IsSelected (m_hListView s) i
                    then fileSelectionSize s - QuadPart (wfd info) else fileSelectionSize s),
                 m_hListView := ListView_DeleteItem i (m_hListView s)\<rparr>))"

text \<open>
  Modelled from the spec: \<^verbatim>\<open>UnfilterItem\<close> and \<^verbatim>\<open>RemoveFilteredItem\<close> are not in
  the source file; the first reveals the item by inserting a row for it into the
  presentation list, the second removes the item's row from the presentation list.
\<close>

definition UnfilterItem :: "int \<Rightarrow> ShellBrowser \<Rightarrow> ShellBrowser" where
  "UnfilterItem ident s = s\<lparr>m_hListView := m_hListView s @ [new_row ident]\<rparr>"

definition RemoveFilteredItem :: "int \<Rightarrow> int \<Rightarrow> ShellBrowser \<Rightarrow> ShellBrowser" where
  "RemoveFilteredItem i ident s = s\<lparr>m_hListView := ListView_DeleteItem i (m_hListView s)\<rparr>"

text \<open>\<^verbatim>\<open>ListView_SortItems\<close> with the comparator: a stable insertion sort of the rows.\<close>

fun insert_sorted :: "('a \<Rightarrow> 'a \<Rightarrow> bool) \<Rightarrow> 'a \<Rightarrow> 'a list \<Rightarrow> 'a list" where
  "insert_sorted le x [] = [x]"
| "insert_sorted le x (y # ys) = (if le x y then x # y # ys else y # insert_sorted le x ys)"

definition ListView_SortItems :: "ShellBrowser \<Rightarrow> ShellBrowser" where
  "ListView_SortItems s =
     s\<lparr>m_hListView :=
         foldr (insert_sorted (\<lambda>a b. SortStub s (m_itemInfoMap s) (lParam a) (lParam b)))
           (m_hListView s) []\<rparr>"

text \<open>
  Modelled from the spec: \<^verbatim>\<open>ListViewHelper::SelectItem\<close> and
  \<^verbatim>\<open>ListViewHelper::FocusItem\<close> are not in the source file. The spec's presentation
  bridge is a stateless translator of directives: selecting sets the row's selected bit,
  focusing moves the single focus to the row, and neither touches the item map or a
  size counter. Each call is recorded in \<open>lvCalls\<close>.
\<close>

definition SelectItem :: "int \<Rightarrow> ShellBrowser \<Rightarrow> ShellBrowser" where
  "SelectItem i s =
     (if lv_valid (m_hListView s) i then
        s\<lparr>m_hListView := (m_hListView s)[nat i := (m_hListView s ! nat i)\<lparr>LVIS_SELECTED := True\<rparr>],
          lvCalls := lvCalls s @ [SelectItemCall i True]\<rparr>
      else s\<lparr>lvCalls := lvCalls s @ [SelectItemCall i True]\<rparr>)"

definition FocusItem :: "int \<Rightarrow> ShellBrowser \<Rightarrow> ShellBrowser" where
  "FocusItem i s =
     (if lv_valid (m_hListView s) i then
        s\<lparr>m_hListView :=
            (map (\<lambda>row. row\<lparr>LVIS_FOCUSED := False\<rparr>) (m_hListView s))
              [nat i := (m_hListView s ! nat i)\<lparr>LVIS_FOCUSED := True\<rparr>],
          lvCalls := lvCalls s @ [FocusItemCall i True]\<rparr>
      else s\<lparr>lvCalls := lvCalls s @ [FocusItemCall i True]\<rparr>)"

section \<open>The handlers\<close>

text \<open>The update of the awaiting entry found by \<^verbatim>\<open>std::find_if\<close> in \<^verbatim>\<open>OnFileAdded\<close>.\<close>

fun set_position :: "int \<Rightarrow> int \<Rightarrow> AwaitingAdd_t list \<Rightarrow> AwaitingAdd_t list" where
  "set_position ident pos [] = []"
| "set_position ident pos (a # as) =
     (if ident = iItemInternal a
      then a\<lparr>iItem := pos, bPosition := True, iAfter := pos - 1\<rparr> # as
      else a # set_position ident pos as)"

definition OnFileAdded :: "Filesystem \<Rightarrow> string \<Rightarrow> ShellBrowser \<Rightarrow> ShellBrowser" where
  "OnFileAdded fs name s =
     (if SHParseDisplayName fs name \<and> SHBindToParent fs name then
        (let bDropped = (name \<in> set (m_DroppedFileNameList s));
             (itemId, s1) = AddItemInternal fs name s;
             s2 = (case itemId of
                     Some ident \<Rightarrow>
                       if insertSorted s1 \<and> \<not> bDropped
                       then s1\<lparr>awaitingAddList :=
                              set_position ident (DetermineItemSortedPosition s1 ident)
                                (awaitingAddList s1)\<rparr>
                       else s1
                   | None \<Rightarrow> s1)
         in InsertAwaitingItems s2)
      else s\<lparr>m_FilesAdded := m_FilesAdded s @ [name]\<rparr>)"

definition OnFileRemoved :: "string \<Rightarrow> ShellBrowser \<Rightarrow> ShellBrowser" where
  "OnFileRemoved name s =
     (if name \<in> set (m_FilesAdded s) then s\<lparr>m_FilesAdded := remove1 name (m_FilesAdded s)\<rparr>
      else (let iInternal = LocateFileItemInternalIndex s name
            in if iInternal \<noteq> -1 then RemoveItem iInternal s else s))"

text \<open>The search of the awaiting list in \<^verbatim>\<open>OnFileModified\<close>; \<open>None\<close> when
  \<^verbatim>\<open>m_itemInfoMap.at\<close> throws for an awaiting id that is not in the map.\<close>

fun find_awaiting :: "(int \<times> ItemInfo_t) list \<Rightarrow> string \<Rightarrow> AwaitingAdd_t list \<Rightarrow> int option" where
  "find_awaiting m name [] = Some (-1)"
| "find_awaiting m name (a # as) =
     (case map_of m (iItemInternal a) of
        None \<Rightarrow> None
      | Some info \<Rightarrow>
          if cFileName (wfd info) = name then Some (iItemInternal a)
          else find_awaiting m name as)"

text \<open>The first half of \<^verbatim>\<open>OnFileModified\<close>: the value of \<^verbatim>\<open>iItemInternal\<close> once
  the list view and, failing that, the awaiting list have been searched.\<close>

definition OnFileModified_locate :: "ShellBrowser \<Rightarrow> string \<Rightarrow> int option" where
  "OnFileModified_locate s FileName =
     (let iIndex = LocateFileItemIndex s FileName in
      if iIndex = -1 then find_awaiting (m_itemInfoMap s) FileName (awaitingAddList s)
      else Some (case ListView_GetItem (m_hListView s) iIndex of Some p \<Rightarrow> p | None \<Rightarrow> -1))"

definition OnFileModified :: "Filesystem \<Rightarrow> string \<Rightarrow> ShellBrowser \<Rightarrow> ShellBrowser option" where
  "OnFileModified fs FileName s =
     (let iIndex = LocateFileItemIndex s FileName in
      case OnFileModified_locate s FileName of
        None \<Rightarrow> None
      | Some iInternal \<Rightarrow>
          if iInternal \<noteq> -1 then
            (case map_of (m_itemInfoMap s) iInternal of
               None \<Rightarrow> None
             | Some info \<Rightarrow>
                 (let sel = ListView_IsSelected (m_hListView s) iIndex;
                      old = QuadPart (wfd info);
                      total1 = totalDirSize s - old;
                      selsize1 = (if sel then fileSelectionSize s - old else fileSelectionSize s)
                  in case FindFirstFile fs FileName of
                       Some d \<Rightarrow>
                         Some (s\<lparr>m_itemInfoMap :=
                                   AList.update iInternal (info\<lparr>wfd := d\<rparr>) (m_itemInfoMap s),
                                 totalDirSize := total1 + QuadPart d,
                                 fileSelectionSize :=
                                   (if sel then selsize1 + QuadPart d else selsize1)\<rparr>)
                     | None \<Rightarrow>
                         Some (s\<lparr>m_itemInfoMap :=
                                   AList.update iInternal
                                     (info\<lparr>wfd := (wfd info)\<lparr>nFileSizeLow := 0, nFileSizeHigh := 0\<rparr>\<rparr>)
                                     (m_itemInfoMap s),
                                 totalDirSize := total1,
                                 fileSelectionSize := selsize1\<rparr>)))
          else Some s)"

definition OnFileRenamedOldName :: "Filesystem \<Rightarrow> string \<Rightarrow> ShellBrowser \<Rightarrow> ShellBrowser" where
  "OnFileRenamedOldName fs name s =
     (if name \<in> set (m_FilesAdded s)
      then s\<lparr>g_bNewFileRenamed := True, m_FilesAdded := remove1 name (m_FilesAdded s)\<rparr>
      else if \<not> StringCchCopy fs then s
      else if \<not> PathAppend fs name then s
      else if \<not> CreateSimplePidl fs name then s
      else (case GetItemInternalIndexForPidl s name of
              Some internalIndex \<Rightarrow> s\<lparr>g_iRenamedItem := internalIndex\<rparr>
            | None \<Rightarrow> s))"

definition RenameItem :: "Filesystem \<Rightarrow> int \<Rightarrow> string \<Rightarrow> ShellBrowser \<Rightarrow> ShellBrowser" where
  "RenameItem fs internalIndex name s =
     (if internalIndex = -1 then s
      else if \<not> SHParseDisplayName fs name then s
      else if \<not> SHBindToParent fs name then s
      else (case GetItemInformation fs name of
              None \<Rightarrow> s
            | Some itemInfo \<Rightarrow>
                (let s1 = s\<lparr>m_itemInfoMap := AList.update internalIndex itemInfo (m_itemInfoMap s)\<rparr>
                 in case LocateItemByInternalIndex s1 internalIndex of
                      None \<Rightarrow>
                        if \<not> IsFileFiltered s1 itemInfo then UnfilterItem internalIndex s1 else s1
                    | Some itemIndex \<Rightarrow>
                        if IsFileFiltered s1 itemInfo
                        then RemoveFilteredItem itemIndex internalIndex s1
                        else ListView_SortItems s1)))"

definition OnFileRenamedNewName :: "Filesystem \<Rightarrow> string \<Rightarrow> ShellBrowser \<Rightarrow> ShellBrowser" where
  "OnFileRenamedNewName fs name s =
     (if g_bNewFileRenamed s then (OnFileAdded fs name s)\<lparr>g_bNewFileRenamed := False\<rparr>
      else RenameItem fs (g_iRenamedItem s) name s)"

section \<open>The batch routine\<close>

text \<open>The body of the loop over \<open>m_AlteredList\<close>: the folder id check and the
  \<^verbatim>\<open>switch\<close> on the action, which has no default branch.\<close>

definition ProcessAlteredFile :: "Filesystem \<Rightarrow> AlteredFile_t \<Rightarrow> ShellBrowser \<Rightarrow> ShellBrowser option" where
  "ProcessAlteredFile fs af s =
     (if iFolderIndex af = m_uniqueFolderId s then
        (if dwAction af = FILE_ACTION_ADDED then Some (OnFileAdded fs (szFileName af) s)
         else if dwAction af = FILE_ACTION_MODIFIED then OnFileModified fs (szFileName af) s
         else if dwAction af = FILE_ACTION_REMOVED then Some (OnFileRemoved (szFileName af) s)
         else if dwAction af = FILE_ACTION_RENAMED_OLD_NAME
           then Some (OnFileRenamedOldName fs (szFileName af) s)
         else if dwAction af = FILE_ACTION_RENAMED_NEW_NAME
           then Some (OnFileRenamedNewName fs (szFileName af) s)
         else Some s)
      else Some s)"

text \<open>The loop itself. The file system may change while a batch is processed: the
  \<open>k\<close>-th notification of the batch is handled against \<open>world k\<close>.\<close>

fun DirectoryAltered_loop ::
  "(nat \<Rightarrow> Filesystem) \<Rightarrow> nat \<Rightarrow> AlteredFile_t list \<Rightarrow> ShellBrowser \<Rightarrow> ShellBrowser option" where
  "DirectoryAltered_loop world k [] s = Some s"
| "DirectoryAltered_loop world k (af # rest) s =
     (case ProcessAlteredFile (world k) af s of
        None \<Rightarrow> None
      | Some s' \<Rightarrow> DirectoryAltered_loop world (Suc k) rest s')"

text \<open>The \<^verbatim>\<open>while\<close> loop over \<open>m_FileSelectionList\<close>: the result is the list with the
  erased entries left out, and the state after the list view calls.\<close>

fun select_items :: "string list \<Rightarrow> bool \<Rightarrow> ShellBrowser \<Rightarrow> string list \<times> ShellBrowser" where
  "select_items [] bFocusSet s = ([], s)"
| "select_items (name # rest) bFocusSet s =
     (let iIndex = LocateFileItemIndex s name in
      if iIndex \<noteq> -1 then
        (let s1 = SelectItem iIndex s;
             s2 = (if \<not> bFocusSet then FocusItem iIndex s1 else s1)
         in select_items rest True s2)
      else (let (kept, s') = select_items rest bFocusSet s in (name # kept, s')))"

definition DirectoryAltered :: "(nat \<Rightarrow> Filesystem) \<Rightarrow> ShellBrowser \<Rightarrow> ShellBrowser option" where
  "DirectoryAltered world s =
     (case DirectoryAltered_loop world 0 (m_AlteredList s) s of
        None \<Rightarrow> None
      | Some s1 \<Rightarrow>
          (let s2 = s1\<lparr>m_iDropped := -1, m_AlteredList := []\<rparr>;
               (kept, s3) = select_items (m_FileSelectionList s2) False s2
           in Some (s3\<lparr>m_FileSelectionList := kept\<rparr>)))"

section \<open>Consistency of the browser state\<close>

text \<open>
  The representation invariant of the state between two handler calls: the item map has
  one entry per id, every id in use was handed out by the id counter (which counts
  up from a non-negative start), nothing waits in
  the awaiting list (\<^verbatim>\<open>OnFileAdded\<close> flushes it before it returns), every row of
  the list view shows an item of the map, and no two rows show the same item.
\<close>

definition well_formed :: "ShellBrowser \<Rightarrow> bool" where
  "well_formed s =
     (distinct (map fst (m_itemInfoMap s))
      \<and> 0 \<le> itemIdCounter s
      \<and> list_all (\<lambda>k. 0 \<le> k \<and> k < itemIdCounter s) (map fst (m_itemInfoMap s))
      \<and> awaitingAddList s = []
      \<and> list_all (\<lambda>row. lParam row \<in> set (map fst (m_itemInfoMap s))) (m_hListView s)
      \<and> distinct (map lParam (m_hListView s)))"


definition row_size :: "(int \<times> ItemInfo_t) list \<Rightarrow> ListViewItem \<Rightarrow> 64 word" where
  "row_size m row = (case map_of m (lParam row) of Some info \<Rightarrow> QuadPart (wfd info) | None \<Rightarrow> 0)"



text \<open>The list view position at which \<^verbatim>\<open>OnFileAdded\<close> inserts the row of a resolved
  file: its sorted position, or the end of the list for a dropped file or when sorted
  insertion is off.\<close>

definition added_position :: "string \<Rightarrow> ItemInfo_t \<Rightarrow> ShellBrowser \<Rightarrow> nat" where
  "added_position name info s =
     (if insertSorted s \<and> name \<notin> set (m_DroppedFileNameList s)
      then length (takeWhile (\<lambda>row. SortStub s (m_itemInfoMap s @ [(itemIdCounter s, info)]) (lParam row) (itemIdCounter s)) (m_hListView s))
      else length (m_hListView s))"

text \<open>\<open>presentation_only s s'\<close>: the state \<open>s'\<close> differs from \<open>s\<close> at most in the
  list view rows and the record of list view calls.\<close>

definition presentation_only :: "ShellBrowser \<Rightarrow> ShellBrowser \<Rightarrow> bool" where
  "presentation_only s s' =
     (s' = s\<lparr>m_hListView := m_hListView s', lvCalls := lvCalls s'\<rparr>)"

text \<open>The outcome of the fast-rename race for the new name \<open>b\<close>: relative to the state
  \<open>s\<close> before the three notifications, the final state \<open>s'\<close> has one more stored
  item, with the metadata resolved for \<open>b\<close> under a fresh id, it is the only stored
  item named \<open>b\<close>, the list of unresolved adds is empty and the fast-rename flag is
  down.\<close>

definition fast_rename_outcome :: "ShellBrowser \<Rightarrow> string \<Rightarrow> ItemInfo_t \<Rightarrow> ShellBrowser \<Rightarrow> bool" where
  "fast_rename_outcome s b info s' =
     (m_itemInfoMap s' = m_itemInfoMap s @ [(itemIdCounter s, info)]
      \<and> map_of (m_itemInfoMap s') (itemIdCounter s) = Some info
      \<and> length (filter (\<lambda>entry. cFileName (wfd (snd entry)) = b) (m_itemInfoMap s')) = 1
      \<and> m_FilesAdded s' = []
      \<and> \<not> g_bNewFileRenamed s')"

section \<open>Concrete inputs\<close>

text \<open>A browser on folder 1 with nothing in it, a file system with no entries, one
  with a single file, and a notification record.\<close>

definition empty_browser :: ShellBrowser where
  "empty_browser =
     \<lparr>m_uniqueFolderId = 1, m_AlteredList = [], m_FilesAdded = [], m_itemInfoMap = [],
      awaitingAddList = [], totalDirSize = 0, fileSelectionSize = 0, m_hListView = [],
      m_FileSelectionList = [], m_DroppedFileNameList = [], m_iDropped = -1,
      g_bNewFileRenamed = False, g_iRenamedItem = -1, itemIdCounter = 0, insertSorted = True,
      IsFileFiltered = (\<lambda>info. False), SortStub = (\<lambda>m a b. a \<le> b), lvCalls = []\<rparr>"

definition no_files :: Filesystem where
  "no_files =
     \<lparr>SHParseDisplayName = (\<lambda>n. False), SHBindToParent = (\<lambda>n. False),
      GetItemInformation = (\<lambda>n. None), FindFirstFile = (\<lambda>n. None),
      StringCchCopy = True, PathAppend = (\<lambda>n. True), CreateSimplePidl = (\<lambda>n. True)\<rparr>"

definition file_data :: "string \<Rightarrow> 32 word \<Rightarrow> WIN32_FIND_DATA" where
  "file_data n sz = \<lparr>cFileName = n, dwFileAttributes = 0, nFileSizeHigh = 0, nFileSizeLow = sz\<rparr>"

definition one_file :: "string \<Rightarrow> 32 word \<Rightarrow> Filesystem" where
  "one_file f sz =
     \<lparr>SHParseDisplayName = (\<lambda>n. n = f), SHBindToParent = (\<lambda>n. n = f),
      GetItemInformation = (\<lambda>n. if n = f then Some \<lparr>wfd = file_data f sz\<rparr> else None),
      FindFirstFile = (\<lambda>n. if n = f then Some (file_data f sz) else None),
      StringCchCopy = True, PathAppend = (\<lambda>n. True), CreateSimplePidl = (\<lambda>n. True)\<rparr>"

definition notification :: "32 word \<Rightarrow> string \<Rightarrow> int \<Rightarrow> AlteredFile_t" where
  "notification action n folder = \<lparr>szFileName = n, dwAction = action, iFolderIndex = folder\<rparr>"

text \<open>The browser after \<open>x\<close> was added, and after \<open>x\<close> was then renamed to \<open>y\<close>.\<close>

definition browser_x :: ShellBrowser where
  "browser_x = OnFileAdded (one_file ''x'' 10) ''x'' empty_browser"

definition browser_renamed :: ShellBrowser where
  "browser_renamed =
     OnFileRenamedNewName (one_file ''y'' 10) ''y'' (OnFileRenamedOldName no_files ''x'' browser_x)"

text \<open>The browser after \<open>g\<close> was added while a selection of \<open>f\<close> was requested.\<close>

definition browser_g :: ShellBrowser where
  "browser_g =
     empty_browser\<lparr>m_itemInfoMap := [(0, \<lparr>wfd = file_data ''g'' 3\<rparr>)], totalDirSize := 3,
       m_hListView := [new_row 0], itemIdCounter := 1, m_FileSelectionList := [''f'']\<rparr>"



section \<open>Basic facts\<close>

lemmas ex_defs = empty_browser_def no_files_def one_file_def file_data_def notification_def
lemmas act_defs = FILE_ACTION_ADDED_def FILE_ACTION_REMOVED_def FILE_ACTION_MODIFIED_def
  FILE_ACTION_RENAMED_OLD_NAME_def FILE_ACTION_RENAMED_NEW_NAME_def
lemmas helper_defs = AddItemInternal_def InsertAwaitingItems_def DetermineItemSortedPosition_def
  ListView_InsertItem_def new_row_def LocateFileItemIndex_def LocateFileItemInternalIndex_def
  GetItemInternalIndexForPidl_def LocateItemByInternalIndex_def RemoveItem_def UnfilterItem_def
  RemoveFilteredItem_def ListView_SortItems_def SelectItem_def FocusItem_def item_name_def
  lv_valid_def ListView_GetItem_def ListView_IsSelected_def ListView_DeleteItem_def row_size_def
  QuadPart_def
lemmas handler_defs = OnFileAdded_def OnFileRemoved_def OnFileModified_def OnFileModified_locate_def
  OnFileRenamedOldName_def OnFileRenamedNewName_def RenameItem_def ProcessAlteredFile_def
  DirectoryAltered_def

lemma browser_x_eq: "browser_x =
  empty_browser\<lparr>m_itemInfoMap := [(0, \<lparr>wfd = file_data ''x'' 10\<rparr>)], totalDirSize := 10,
    m_hListView := [new_row 0], itemIdCounter := 1\<rparr>"
  by (simp add: browser_x_def ex_defs helper_defs OnFileAdded_def Let_def)

lemma browser_renamed_eq: "browser_renamed =
  empty_browser\<lparr>m_itemInfoMap := [(0, \<lparr>wfd = file_data ''y'' 10\<rparr>)], totalDirSize := 10,
    m_hListView := [new_row 0], itemIdCounter := 1, g_iRenamedItem := 0\<rparr>"
  by (simp add: browser_renamed_def browser_x_eq ex_defs helper_defs handler_defs Let_def)

section \<open>The rename marker and the fast-rename flag\<close>

lemma marker_RenameItem: "g_iRenamedItem (RenameItem fs i n s) = g_iRenamedItem s"
  by (simp add: RenameItem_def UnfilterItem_def RemoveFilteredItem_def ListView_SortItems_def Let_def split: option.splits)

lemma marker_OnFileAdded: "g_iRenamedItem (OnFileAdded fs n s) = g_iRenamedItem s"
  by (simp add: OnFileAdded_def AddItemInternal_def InsertAwaitingItems_def Let_def split: option.splits prod.splits)

lemma flag_RenameItem: "g_bNewFileRenamed (RenameItem fs i n s) = g_bNewFileRenamed s"
  by (simp add: RenameItem_def UnfilterItem_def RemoveFilteredItem_def ListView_SortItems_def Let_def split: option.splits)

text \<open>
  Claim C1, as the code has it. Handling a rename-to notification always leaves the
  fast-rename flag \<open>g_bNewFileRenamed\<close> cleared, whatever the outcome, and leaves
  the rename marker \<open>g_iRenamedItem\<close> exactly as it was: no statement of the file
  resets the marker to \<open>-1\<close>.
\<close>

theorem rename_to_keeps_marker:
  "g_iRenamedItem (OnFileRenamedNewName fs name s) = g_iRenamedItem s
   \<and> \<not> g_bNewFileRenamed (OnFileRenamedNewName fs name s)"
  by (simp add: OnFileRenamedNewName_def marker_RenameItem marker_OnFileAdded flag_RenameItem)

text \<open>
  Claim C1 as stated fails: after a batch holding the rename of the listed item \<open>x\<close>
  to \<open>y\<close> has been processed to its end, the marker is still set (to the id 0 of the
  renamed item), not cleared.
\<close>

theorem rename_to_marker_not_cleared:
  "map_option g_iRenamedItem
     (DirectoryAltered (\<lambda>k. one_file ''y'' 10)
        (browser_x\<lparr>m_AlteredList := [notification FILE_ACTION_RENAMED_OLD_NAME ''x'' 1,
                                      notification FILE_ACTION_RENAMED_NEW_NAME ''y'' 1]\<rparr>))
   = Some 0"
  by (simp add: browser_x_eq ex_defs helper_defs handler_defs act_defs Let_def)

text \<open>
  Claim C2, as the code has it. A rename-from notification whose name is neither in
  \<open>m_FilesAdded\<close> nor the name of a stored item changes nothing at all; in
  particular a marker left by an earlier rename stays in place.
\<close>

theorem rename_from_unresolved_no_change:
  assumes "name \<notin> set (m_FilesAdded s)"
    and "GetItemInternalIndexForPidl s name = None"
  shows "OnFileRenamedOldName fs name s = s"
  using assms by (simp add: OnFileRenamedOldName_def)

theorem rename_from_unresolved_no_change_witness:
  "''ghost'' \<notin> set (m_FilesAdded browser_renamed)
   \<and> GetItemInternalIndexForPidl browser_renamed ''ghost'' = None
   \<and> OnFileRenamedOldName no_files ''ghost'' browser_renamed = browser_renamed"
proof -
  have a: "''ghost'' \<notin> set (m_FilesAdded browser_renamed)"
    by (simp add: browser_renamed_eq ex_defs)
  have b: "GetItemInternalIndexForPidl browser_renamed ''ghost'' = None"
    by (simp add: browser_renamed_eq ex_defs GetItemInternalIndexForPidl_def)
  from a b rename_from_unresolved_no_change [OF a b, of no_files] show ?thesis by simp
qed

text \<open>
  Claim C2 as stated fails: with the marker left at item 0 by the earlier rename, an
  unresolved rename-from for \<open>ghost\<close> does not clear it, and the rename-to for
  \<open>z\<close> that follows acts on item 0.
\<close>

theorem rename_from_unresolved_keeps_stale_marker:
  "''ghost'' \<notin> set (m_FilesAdded browser_renamed)
   \<and> GetItemInternalIndexForPidl browser_renamed ''ghost'' = None
   \<and> g_iRenamedItem (OnFileRenamedOldName no_files ''ghost'' browser_renamed) = 0
   \<and> item_name (m_itemInfoMap
        (OnFileRenamedNewName (one_file ''z'' 10) ''z''
           (OnFileRenamedOldName no_files ''ghost'' browser_renamed))) 0 = Some ''z''"
  by (simp add: browser_renamed_eq ex_defs helper_defs handler_defs Let_def)

section \<open>The list of added files that could not be resolved\<close>

lemma ledger_RenameItem: "m_FilesAdded (RenameItem fs i n s) = m_FilesAdded s"
  by (simp add: RenameItem_def UnfilterItem_def RemoveFilteredItem_def ListView_SortItems_def Let_def split: option.splits)

lemma ledger_OnFileAdded:
  "m_FilesAdded (OnFileAdded fs n s) =
     (if SHParseDisplayName fs n \<and> SHBindToParent fs n then m_FilesAdded s else m_FilesAdded s @ [n])"
  by (simp add: OnFileAdded_def AddItemInternal_def InsertAwaitingItems_def Let_def split: option.splits prod.splits)

lemma ledger_OnFileModified: "OnFileModified fs n s = Some s' \<Longrightarrow> m_FilesAdded s' = m_FilesAdded s"
  by (auto simp add: OnFileModified_def Let_def split: option.splits if_splits)

lemma ledger_OnFileRemoved:
  "m_FilesAdded (OnFileRemoved n s) = remove1 n (m_FilesAdded s)"
  by (simp add: OnFileRemoved_def RemoveItem_def remove1_idem Let_def split: option.splits)

lemma ledger_OnFileRenamedOldName:
  "m_FilesAdded (OnFileRenamedOldName fs n s) = remove1 n (m_FilesAdded s)"
  by (simp add: OnFileRenamedOldName_def remove1_idem split: option.splits)

text \<open>
  Claim C3, as the code has it. One notification changes \<open>m_FilesAdded\<close> in one of
  three ways only: not at all, by appending the notified name (a failed add, with no
  check for an entry of the same name), or, for a remove or rename-from notification,
  by erasing the first entry with the notified name. So an entry leaves the list only
  through a remove or a rename-from notification for its name.
\<close>

theorem ledger_changes:
  assumes "ProcessAlteredFile fs af s = Some s'"
  shows "m_FilesAdded s' = m_FilesAdded s
       \<or> m_FilesAdded s' = m_FilesAdded s @ [szFileName af]
       \<or> ((dwAction af = FILE_ACTION_REMOVED \<or> dwAction af = FILE_ACTION_RENAMED_OLD_NAME)
           \<and> m_FilesAdded s' = remove1 (szFileName af) (m_FilesAdded s))"
  using assms
  by (auto simp add: ProcessAlteredFile_def OnFileRenamedNewName_def ledger_RenameItem
      ledger_OnFileAdded ledger_OnFileRemoved ledger_OnFileRenamedOldName
      dest: ledger_OnFileModified split: if_splits)

theorem ledger_changes_witness:
  "ProcessAlteredFile no_files (notification FILE_ACTION_REMOVED ''a'' 1)
     (empty_browser\<lparr>m_FilesAdded := [''a'', ''a'']\<rparr>)
     = Some (empty_browser\<lparr>m_FilesAdded := [''a'']\<rparr>)
   \<and> m_FilesAdded (empty_browser\<lparr>m_FilesAdded := [''a'']\<rparr>)
       = remove1 ''a'' (m_FilesAdded (empty_browser\<lparr>m_FilesAdded := [''a'', ''a'']\<rparr>))"
proof -
  have run: "ProcessAlteredFile no_files (notification FILE_ACTION_REMOVED ''a'' 1)
     (empty_browser\<lparr>m_FilesAdded := [''a'', ''a'']\<rparr>)
     = Some (empty_browser\<lparr>m_FilesAdded := [''a'']\<rparr>)"
    by (simp add: ProcessAlteredFile_def OnFileRemoved_def ex_defs act_defs)
  from ledger_changes [OF run] run show ?thesis
    by (simp add: ex_defs act_defs)
qed

text \<open>
  Claim C3 as stated fails: two add notifications for \<open>a\<close> that both fail to resolve
  leave the name twice in the list.
\<close>

theorem ledger_duplicate:
  "\<not> distinct (m_FilesAdded (OnFileAdded no_files ''a'' (OnFileAdded no_files ''a'' empty_browser)))"
  by (simp add: ex_defs OnFileAdded_def)


section \<open>Notifications for a folder that is no longer shown\<close>

lemma folder_RenameItem: "m_uniqueFolderId (RenameItem fs i n s) = m_uniqueFolderId s"
  by (simp add: RenameItem_def UnfilterItem_def RemoveFilteredItem_def ListView_SortItems_def Let_def split: option.splits)

lemma folder_OnFileAdded: "m_uniqueFolderId (OnFileAdded fs n s) = m_uniqueFolderId s"
  by (simp add: OnFileAdded_def AddItemInternal_def InsertAwaitingItems_def Let_def split: option.splits prod.splits)

lemma folder_OnFileModified: "OnFileModified fs n s = Some s' \<Longrightarrow> m_uniqueFolderId s' = m_uniqueFolderId s"
  by (auto simp add: OnFileModified_def Let_def split: option.splits if_splits)

lemma folder_OnFileRemoved: "m_uniqueFolderId (OnFileRemoved n s) = m_uniqueFolderId s"
  by (simp add: OnFileRemoved_def RemoveItem_def Let_def split: option.splits)

lemma folder_OnFileRenamedOldName: "m_uniqueFolderId (OnFileRenamedOldName fs n s) = m_uniqueFolderId s"
  by (simp add: OnFileRenamedOldName_def split: option.splits)

lemma folder_ProcessAlteredFile:
  "ProcessAlteredFile fs af s = Some s' \<Longrightarrow> m_uniqueFolderId s' = m_uniqueFolderId s"
  by (auto simp add: ProcessAlteredFile_def OnFileRenamedNewName_def folder_RenameItem
      folder_OnFileAdded folder_OnFileRemoved folder_OnFileRenamedOldName
      dest: folder_OnFileModified split: if_splits)

lemma folder_loop:
  "DirectoryAltered_loop world k batch s = Some s' \<Longrightarrow> m_uniqueFolderId s' = m_uniqueFolderId s"
proof (induction batch arbitrary: k s)
  case Nil
  then show ?case by simp
next
  case (Cons af batch)
  then show ?case
    by (auto split: option.splits dest: folder_ProcessAlteredFile)
qed

lemma loop_append:
  "DirectoryAltered_loop world k (pre @ post) s =
     (case DirectoryAltered_loop world k pre s of
        None \<Rightarrow> None
      | Some s1 \<Rightarrow> DirectoryAltered_loop world (k + length pre) post s1)"
  by (induction pre arbitrary: k s) (auto split: option.splits)

lemma stale_ProcessAlteredFile:
  "iFolderIndex af \<noteq> m_uniqueFolderId s \<Longrightarrow> ProcessAlteredFile fs af s = Some s"
  by (simp add: ProcessAlteredFile_def)

lemma stale_loop:
  assumes "iFolderIndex af \<noteq> m_uniqueFolderId s"
  shows "DirectoryAltered_loop world k (pre @ af # post) s =
           (case DirectoryAltered_loop world k pre s of
              None \<Rightarrow> None
            | Some s1 \<Rightarrow> DirectoryAltered_loop world (k + length pre + 1) post s1)"
proof (cases "DirectoryAltered_loop world k pre s")
  case None
  then show ?thesis by (simp add: loop_append)
next
  case (Some s1)
  then have "iFolderIndex af \<noteq> m_uniqueFolderId s1"
    using assms folder_loop by metis
  then show ?thesis
    using Some by (simp add: loop_append stale_ProcessAlteredFile)
qed

text \<open>
  Claim C9. A notification whose folder index differs from \<open>m_uniqueFolderId\<close> is
  skipped: handling it returns the state unchanged (item map, list of unresolved adds,
  both size counters and everything else), and a batch that contains it anywhere
  is processed as if it were not there: the state reached after the notifications
  before it is the state the notifications after it start from. The handlers that are
  run never change \<open>m_uniqueFolderId\<close>, so the comparison is against the same
  folder id throughout the batch.
\<close>

theorem stale_epoch_discarded:
  assumes "iFolderIndex af \<noteq> m_uniqueFolderId s"
  shows "ProcessAlteredFile fs af s = Some s
       \<and> DirectoryAltered_loop world k (pre @ af # post) s =
           (case DirectoryAltered_loop world k pre s of
              None \<Rightarrow> None
            | Some s1 \<Rightarrow> DirectoryAltered_loop world (k + length pre + 1) post s1)"
  using assms by (simp only: stale_ProcessAlteredFile stale_loop simp_thms)

theorem stale_epoch_discarded_witness:
  "iFolderIndex (notification FILE_ACTION_REMOVED ''x'' 2) \<noteq> m_uniqueFolderId browser_x
   \<and> ProcessAlteredFile no_files (notification FILE_ACTION_REMOVED ''x'' 2) browser_x = Some browser_x
   \<and> DirectoryAltered_loop (\<lambda>k. no_files) 0 [notification FILE_ACTION_REMOVED ''x'' 2] browser_x
       = Some browser_x"
proof -
  have h: "iFolderIndex (notification FILE_ACTION_REMOVED ''x'' 2) \<noteq> m_uniqueFolderId browser_x"
    by (simp add: browser_x_eq ex_defs)
  from stale_epoch_discarded [OF h, of no_files "\<lambda>k. no_files" 0 "[]" "[]"] h
  show ?thesis by simp
qed

section \<open>Modification of a file that has disappeared\<close>

lemma QuadPart_zero: "QuadPart (d\<lparr>nFileSizeLow := 0, nFileSizeHigh := 0\<rparr>) = 0"
  by (simp add: QuadPart_def)

text \<open>
  Claim C7. When \<^verbatim>\<open>OnFileModified\<close> finds the item (in the list view or in the
  awaiting list, and in the item map) and \<^verbatim>\<open>FindFirstFile\<close> fails, the handler
  returns normally; the total size has lost the item's old size, the selection size has
  lost it when the item's row is selected, the item's stored size is zero, nothing is
  added back and nothing else changes.
\<close>

theorem modified_restat_fails:
  assumes "OnFileModified_locate s name = Some ident"
    and "ident \<noteq> -1"
    and "map_of (m_itemInfoMap s) ident = Some info"
    and "FindFirstFile fs name = None"
  shows "OnFileModified fs name s =
     Some (s\<lparr>m_itemInfoMap :=
               AList.update ident (info\<lparr>wfd := (wfd info)\<lparr>nFileSizeLow := 0, nFileSizeHigh := 0\<rparr>\<rparr>)
                 (m_itemInfoMap s),
             totalDirSize := totalDirSize s - QuadPart (wfd info),
             fileSelectionSize :=
               (if ListView_IsSelected (m_hListView s) (LocateFileItemIndex s name)
                then fileSelectionSize s - QuadPart (wfd info) else fileSelectionSize s)\<rparr>)
     \<and> QuadPart ((wfd info)\<lparr>nFileSizeLow := 0, nFileSizeHigh := 0\<rparr>) = 0"
  using assms by (simp add: OnFileModified_def Let_def QuadPart_zero)

theorem modified_restat_fails_witness:
  "OnFileModified_locate browser_x ''x'' = Some 0
   \<and> map_of (m_itemInfoMap browser_x) 0 = Some \<lparr>wfd = file_data ''x'' 10\<rparr>
   \<and> FindFirstFile no_files ''x'' = None
   \<and> OnFileModified no_files ''x'' browser_x =
       Some (browser_x\<lparr>m_itemInfoMap := [(0, \<lparr>wfd = file_data ''x'' 0\<rparr>)], totalDirSize := 0\<rparr>)"
proof -
  have a: "OnFileModified_locate browser_x ''x'' = Some 0"
    by (simp add: browser_x_eq ex_defs helper_defs OnFileModified_locate_def)
  have b: "(0::int) \<noteq> -1" by simp
  have c: "map_of (m_itemInfoMap browser_x) 0 = Some \<lparr>wfd = file_data ''x'' 10\<rparr>"
    by (simp add: browser_x_eq ex_defs)
  have d: "FindFirstFile no_files ''x'' = None"
    by (simp add: ex_defs)
  from modified_restat_fails [OF a b c d] a c d show ?thesis
    by (simp add: browser_x_eq ex_defs helper_defs)
qed

section \<open>Removal\<close>

lemma first_named_in_set:
  "first_named name m = Some k \<Longrightarrow> \<exists>info. (k, info) \<in> set m \<and> cFileName (wfd info) = name"
  by (induction name m rule: first_named.induct) (auto split: if_splits)

lemma first_named_Some:
  "distinct (map fst m) \<Longrightarrow> first_named name m = Some k \<Longrightarrow>
     \<exists>info. map_of m k = Some info \<and> cFileName (wfd info) = name"
  using first_named_in_set [of name m k] by auto

lemma first_named_None:
  "first_named name m = None \<longleftrightarrow> (\<forall>(k, info) \<in> set m. cFileName (wfd info) \<noteq> name)"
  by (induction name m rule: first_named.induct) auto

lemma removed_parts:
  shows "name \<in> set (m_FilesAdded s) \<Longrightarrow>
           OnFileRemoved name s = s\<lparr>m_FilesAdded := remove1 name (m_FilesAdded s)\<rparr>"
    and "name \<notin> set (m_FilesAdded s) \<Longrightarrow> first_named name (m_itemInfoMap s) = Some ident \<Longrightarrow>
         ident \<noteq> -1 \<Longrightarrow> distinct (map fst (m_itemInfoMap s)) \<Longrightarrow>
           (\<exists>info. map_of (m_itemInfoMap s) ident = Some info \<and> cFileName (wfd info) = name
              \<and> m_itemInfoMap (OnFileRemoved name s) = AList.delete ident (m_itemInfoMap s)
              \<and> map_of (m_itemInfoMap (OnFileRemoved name s)) ident = None
              \<and> totalDirSize (OnFileRemoved name s) = totalDirSize s - QuadPart (wfd info)
              \<and> fileSelectionSize (OnFileRemoved name s) =
                  (case LocateItemByInternalIndex s ident of
                     Some i \<Rightarrow> if ListView_IsSelected (m_hListView s) i
                               then fileSelectionSize s - QuadPart (wfd info)
                               else fileSelectionSize s
                   | None \<Rightarrow> fileSelectionSize s)
              \<and> m_hListView (OnFileRemoved name s) =
                  (case LocateItemByInternalIndex s ident of
                     Some i \<Rightarrow> ListView_DeleteItem i (m_hListView s)
                   | None \<Rightarrow> m_hListView s)
              \<and> m_FilesAdded (OnFileRemoved name s) = m_FilesAdded s)"
    and "name \<notin> set (m_FilesAdded s) \<Longrightarrow> first_named name (m_itemInfoMap s) = None \<Longrightarrow>
           OnFileRemoved name s = s"
proof -
  show "name \<in> set (m_FilesAdded s) \<Longrightarrow>
           OnFileRemoved name s = s\<lparr>m_FilesAdded := remove1 name (m_FilesAdded s)\<rparr>"
    by (simp add: OnFileRemoved_def)
  show "name \<notin> set (m_FilesAdded s) \<Longrightarrow> first_named name (m_itemInfoMap s) = None \<Longrightarrow>
           OnFileRemoved name s = s"
    by (simp add: OnFileRemoved_def LocateFileItemInternalIndex_def)
  assume a: "name \<notin> set (m_FilesAdded s)" and b: "first_named name (m_itemInfoMap s) = Some ident"
    and c: "ident \<noteq> -1" and d: "distinct (map fst (m_itemInfoMap s))"
  from first_named_Some [OF d b] obtain info where
    i: "map_of (m_itemInfoMap s) ident = Some info" "cFileName (wfd info) = name" by blast
  have r: "OnFileRemoved name s = RemoveItem ident s"
    using a b c by (simp add: OnFileRemoved_def LocateFileItemInternalIndex_def)
  show "\<exists>info. map_of (m_itemInfoMap s) ident = Some info \<and> cFileName (wfd info) = name
              \<and> m_itemInfoMap (OnFileRemoved name s) = AList.delete ident (m_itemInfoMap s)
              \<and> map_of (m_itemInfoMap (OnFileRemoved name s)) ident = None
              \<and> totalDirSize (OnFileRemoved name s) = totalDirSize s - QuadPart (wfd info)
              \<and> fileSelectionSize (OnFileRemoved name s) =
                  (case LocateItemByInternalIndex s ident of
                     Some i \<Rightarrow> if ListView_IsSelected (m_hListView s) i
                               then fileSelectionSize s - QuadPart (wfd info)
                               else fileSelectionSize s
                   | None \<Rightarrow> fileSelectionSize s)
              \<and> m_hListView (OnFileRemoved name s) =
                  (case LocateItemByInternalIndex s ident of
                     Some i \<Rightarrow> ListView_DeleteItem i (m_hListView s)
                   | None \<Rightarrow> m_hListView s)
              \<and> m_FilesAdded (OnFileRemoved name s) = m_FilesAdded s"
    using i by (simp add: r RemoveItem_def AList.delete_conv' split: option.splits)
qed

text \<open>
  Claim C8. For a remove notification: a name in \<open>m_FilesAdded\<close> is erased there
  (its first entry) and nothing else changes; otherwise, when a stored item has
  the name, that item leaves the item map, its size is subtracted from the total and,
  when its row is selected, from the selection size, and its row is deleted from the
  list view; when the name is in neither place the state is unchanged. The item map has
  one entry per id, and \<open>-1\<close> is the "not found" result and no item's id.
\<close>

theorem removed_cases:
  "(name \<in> set (m_FilesAdded s) \<longrightarrow>
      OnFileRemoved name s = s\<lparr>m_FilesAdded := remove1 name (m_FilesAdded s)\<rparr>)
   \<and> (name \<notin> set (m_FilesAdded s) \<and> first_named name (m_itemInfoMap s) = Some ident
        \<and> ident \<noteq> -1 \<and> distinct (map fst (m_itemInfoMap s)) \<longrightarrow>
      (\<exists>info. map_of (m_itemInfoMap s) ident = Some info \<and> cFileName (wfd info) = name
         \<and> m_itemInfoMap (OnFileRemoved name s) = AList.delete ident (m_itemInfoMap s)
         \<and> map_of (m_itemInfoMap (OnFileRemoved name s)) ident = None
         \<and> totalDirSize (OnFileRemoved name s) = totalDirSize s - QuadPart (wfd info)
         \<and> fileSelectionSize (OnFileRemoved name s) =
             (case LocateItemByInternalIndex s ident of
                Some i \<Rightarrow> if ListView_IsSelected (m_hListView s) i
                          then fileSelectionSize s - QuadPart (wfd info)
                          else fileSelectionSize s
              | None \<Rightarrow> fileSelectionSize s)
         \<and> m_hListView (OnFileRemoved name s) =
             (case LocateItemByInternalIndex s ident of
                Some i \<Rightarrow> ListView_DeleteItem i (m_hListView s)
              | None \<Rightarrow> m_hListView s)
         \<and> m_FilesAdded (OnFileRemoved name s) = m_FilesAdded s))
   \<and> (name \<notin> set (m_FilesAdded s) \<and> first_named name (m_itemInfoMap s) = None \<longrightarrow>
      OnFileRemoved name s = s)"
  using removed_parts(1) [of name s] removed_parts(2) [of name s ident] removed_parts(3) [of name s]
  by blast

theorem removed_cases_witness:
  "''a'' \<in> set (m_FilesAdded (browser_x\<lparr>m_FilesAdded := [''a'']\<rparr>))
   \<and> OnFileRemoved ''a'' (browser_x\<lparr>m_FilesAdded := [''a'']\<rparr>) = browser_x
   \<and> ''x'' \<notin> set (m_FilesAdded browser_x) \<and> first_named ''x'' (m_itemInfoMap browser_x) = Some 0
   \<and> distinct (map fst (m_itemInfoMap browser_x))
   \<and> m_itemInfoMap (OnFileRemoved ''x'' browser_x) = []
   \<and> totalDirSize (OnFileRemoved ''x'' browser_x) = 0
   \<and> m_hListView (OnFileRemoved ''x'' browser_x) = []
   \<and> first_named ''ghost'' (m_itemInfoMap browser_x) = None
   \<and> OnFileRemoved ''ghost'' browser_x = browser_x"
proof -
  have a: "''a'' \<in> set (m_FilesAdded (browser_x\<lparr>m_FilesAdded := [''a'']\<rparr>))" by simp
  have b: "''x'' \<notin> set (m_FilesAdded browser_x) \<and> first_named ''x'' (m_itemInfoMap browser_x) = Some 0
      \<and> (0::int) \<noteq> -1 \<and> distinct (map fst (m_itemInfoMap browser_x))"
    by (simp add: browser_x_eq ex_defs)
  have c: "''ghost'' \<notin> set (m_FilesAdded browser_x)
      \<and> first_named ''ghost'' (m_itemInfoMap browser_x) = None"
    by (simp add: browser_x_eq ex_defs)
  from removed_cases [of "''a''" "browser_x\<lparr>m_FilesAdded := [''a'']\<rparr>" 0]
    removed_cases [of "''x''" browser_x 0] removed_cases [of "''ghost''" browser_x 0] a b c
  show ?thesis
    by (simp add: browser_x_eq ex_defs helper_defs)
qed

section \<open>Searching the list view; the selection loop\<close>

lemma first_index_cases:
  "first_index P xs = -1 \<or> (0 \<le> first_index P xs \<and> first_index P xs < int (length xs))"
  by (induction xs) (auto simp: Let_def)

lemma first_index_range:
  "first_index P xs \<noteq> -1 \<Longrightarrow> 0 \<le> first_index P xs \<and> first_index P xs < int (length xs)"
  using first_index_cases [of P xs] by blast

lemma first_index_none: "first_index P xs = -1 \<longleftrightarrow> (\<forall>x \<in> set xs. \<not> P x)"
proof (induction xs)
  case Nil
  then show ?case by simp
next
  case (Cons x xs)
  then show ?case
    using first_index_cases [of P xs] by (auto simp: Let_def)
qed


lemma first_index_map: "first_index (\<lambda>x. Q (f x)) xs = first_index Q (map f xs)"
  by (induction xs) (simp_all add: Let_def)

lemma Locate_cong:
  assumes "m_itemInfoMap s' = m_itemInfoMap s"
    and "map lParam (m_hListView s') = map lParam (m_hListView s)"
  shows "LocateFileItemIndex s' n = LocateFileItemIndex s n"
proof -
  have "LocateFileItemIndex t n =
      first_index (\<lambda>p. item_name (m_itemInfoMap t) p = Some n) (map lParam (m_hListView t))" for t
    unfolding LocateFileItemIndex_def by (rule first_index_map)
  then show ?thesis using assms by simp
qed

lemma map_lParam_SelectItem: "map lParam (m_hListView (SelectItem i s)) = map lParam (m_hListView s)"
  by (auto simp: SelectItem_def lv_valid_def nth_list_update intro!: nth_equalityI)

lemma map_lParam_FocusItem: "map lParam (m_hListView (FocusItem i s)) = map lParam (m_hListView s)"
  by (auto simp: FocusItem_def lv_valid_def nth_list_update intro!: nth_equalityI)

lemma store_SelectItem: "m_itemInfoMap (SelectItem i s) = m_itemInfoMap s"
  by (simp add: SelectItem_def)

lemma store_FocusItem: "m_itemInfoMap (FocusItem i s) = m_itemInfoMap s"
  by (simp add: FocusItem_def)

lemma Locate_SelectItem: "LocateFileItemIndex (SelectItem i s) n = LocateFileItemIndex s n"
  by (rule Locate_cong) (simp_all add: store_SelectItem map_lParam_SelectItem)

lemma Locate_FocusItem: "LocateFileItemIndex (FocusItem i s) n = LocateFileItemIndex s n"
  by (rule Locate_cong) (simp_all add: store_FocusItem map_lParam_FocusItem)

lemma calls_SelectItem: "lvCalls (SelectItem i s) = lvCalls s @ [SelectItemCall i True]"
  by (simp add: SelectItem_def)

lemma calls_FocusItem: "lvCalls (FocusItem i s) = lvCalls s @ [FocusItemCall i True]"
  by (simp add: FocusItem_def)

lemma select_items_kept:
  "fst (select_items names b s) = filter (\<lambda>n. LocateFileItemIndex s n = -1) names"
proof (induction names arbitrary: b s)
  case Nil
  then show ?case by simp
next
  case (Cons n names)
  show ?case
  proof (cases "LocateFileItemIndex s n = -1")
    case True
    then show ?thesis using Cons [of b s] by (simp add: split_beta)
  next
    case False
    then show ?thesis
      using Cons by (simp add: Let_def Locate_SelectItem Locate_FocusItem)
  qed
qed

lemma select_items_calls:
  "lvCalls (snd (select_items names b s)) =
     lvCalls s @
       (let L = LocateFileItemIndex s; resolved = filter (\<lambda>n. L n \<noteq> -1) names
        in if b then map (\<lambda>n. SelectItemCall (L n) True) resolved
           else (case resolved of
                   [] \<Rightarrow> []
                 | n # ns \<Rightarrow> SelectItemCall (L n) True # FocusItemCall (L n) True
                            # map (\<lambda>m. SelectItemCall (L m) True) ns))"
proof (induction names arbitrary: b s)
  case Nil
  then show ?case by (simp add: Let_def)
next
  case (Cons n names)
  show ?case
  proof (cases "LocateFileItemIndex s n = -1")
    case True
    then show ?thesis using Cons [of b s] by (simp add: split_beta Let_def)
  next
    case False
    let ?i = "LocateFileItemIndex s n"
    let ?s2 = "if b then SelectItem ?i s else FocusItem ?i (SelectItem ?i s)"
    have L: "LocateFileItemIndex ?s2 = LocateFileItemIndex s"
      by (rule ext) (simp add: Locate_SelectItem Locate_FocusItem)
    have step: "select_items (n # names) b s = select_items names True ?s2"
      using False by (simp add: Let_def)
    show ?thesis
      unfolding step Cons [of True ?s2] L
      using False by (simp add: Let_def calls_SelectItem calls_FocusItem)
  qed
qed

section \<open>Adding a file\<close>

lemma insert_rows_single:
  "insert_rows [a] lv = ListView_InsertItem (if bPosition a then iItem a else int (length lv)) (new_row (iItemInternal a)) lv"
  by simp

lemma sorted_position_range:
  "0 \<le> DetermineItemSortedPosition s c \<and> DetermineItemSortedPosition s c \<le> int (length (m_hListView s))"
  by (simp add: DetermineItemSortedPosition_def length_takeWhile_le)

lemma added_position_le: "added_position name info s \<le> length (m_hListView s)"
  by (simp add: added_position_def length_takeWhile_le)

lemma OnFileAdded_resolved:
  assumes "awaitingAddList s = []"
    and "SHParseDisplayName fs name" and "SHBindToParent fs name"
    and "GetItemInformation fs name = Some info"
  shows "OnFileAdded fs name s =
     s\<lparr>m_itemInfoMap := m_itemInfoMap s @ [(itemIdCounter s, info)],
       totalDirSize := totalDirSize s + QuadPart (wfd info),
       itemIdCounter := itemIdCounter s + 1,
       m_hListView := take (added_position name info s) (m_hListView s)
          @ new_row (itemIdCounter s) # drop (added_position name info s) (m_hListView s)\<rparr>"
  using assms
  by (simp add: OnFileAdded_def AddItemInternal_def InsertAwaitingItems_def Let_def
      DetermineItemSortedPosition_def ListView_InsertItem_def added_position_def length_takeWhile_le)


lemma OnFileAdded_unresolved:
  assumes "\<not> (SHParseDisplayName fs name \<and> SHBindToParent fs name)"
  shows "OnFileAdded fs name s = s\<lparr>m_FilesAdded := m_FilesAdded s @ [name]\<rparr>"
  using assms by (auto simp: OnFileAdded_def)


section \<open>What the selection loop leaves alone\<close>

lemma presentation_only_refl: "presentation_only s s"
  by (simp add: presentation_only_def)

lemma presentation_only_trans:
  assumes "presentation_only s s1" and "presentation_only s1 s2"
  shows "presentation_only s s2"
proof -
  have "s2 = s1\<lparr>m_hListView := m_hListView s2, lvCalls := lvCalls s2\<rparr>"
    using assms(2) by (simp add: presentation_only_def)
  also have "s1 = s\<lparr>m_hListView := m_hListView s1, lvCalls := lvCalls s1\<rparr>"
    using assms(1) by (simp add: presentation_only_def)
  finally have "s2 = s\<lparr>m_hListView := m_hListView s2, lvCalls := lvCalls s2\<rparr>" by simp
  then show ?thesis by (simp add: presentation_only_def)
qed

lemma presentation_only_SelectItem: "presentation_only s (SelectItem i s)"
  by (simp add: presentation_only_def SelectItem_def)

lemma presentation_only_FocusItem: "presentation_only s (FocusItem i s)"
  by (simp add: presentation_only_def FocusItem_def)

lemma presentation_only_select_items: "presentation_only s (snd (select_items names b s))"
proof (induction names arbitrary: b s)
  case Nil
  then show ?case by (simp add: presentation_only_refl)
next
  case (Cons n names)
  show ?case
  proof (cases "LocateFileItemIndex s n = -1")
    case True
    then show ?thesis using Cons [of s b] by (simp add: split_beta)
  next
    case False
    let ?i = "LocateFileItemIndex s n"
    let ?s2 = "if b then SelectItem ?i s else FocusItem ?i (SelectItem ?i s)"
    have step: "select_items (n # names) b s = select_items names True ?s2"
      using False by (simp add: Let_def)
    have "presentation_only s (FocusItem ?i (SelectItem ?i s))"
      by (rule presentation_only_trans [OF presentation_only_SelectItem presentation_only_FocusItem])
    then have "presentation_only s ?s2"
      by (simp add: presentation_only_SelectItem)
    then show ?thesis
      unfolding step using Cons [of ?s2 True] presentation_only_trans by blast
  qed
qed

lemma presentation_only_fields:
  assumes "presentation_only s s'"
  shows "m_itemInfoMap s' = m_itemInfoMap s" "m_FilesAdded s' = m_FilesAdded s"
    "awaitingAddList s' = awaitingAddList s" "totalDirSize s' = totalDirSize s"
    "g_bNewFileRenamed s' = g_bNewFileRenamed s" "g_iRenamedItem s' = g_iRenamedItem s"
    "itemIdCounter s' = itemIdCounter s" "m_uniqueFolderId s' = m_uniqueFolderId s"
    "m_FileSelectionList s' = m_FileSelectionList s" "m_AlteredList s' = m_AlteredList s"
    "insertSorted s' = insertSorted s" "m_DroppedFileNameList s' = m_DroppedFileNameList s"
    "SortStub s' = SortStub s" "IsFileFiltered s' = IsFileFiltered s" "m_iDropped s' = m_iDropped s"
    "fileSelectionSize s' = fileSelectionSize s"
proof -
  have e: "s' = s\<lparr>m_hListView := m_hListView s', lvCalls := lvCalls s'\<rparr>"
    using assms by (simp add: presentation_only_def)
  show "m_itemInfoMap s' = m_itemInfoMap s" by (subst e) simp
  show "m_FilesAdded s' = m_FilesAdded s" by (subst e) simp
  show "awaitingAddList s' = awaitingAddList s" by (subst e) simp
  show "totalDirSize s' = totalDirSize s" by (subst e) simp
  show "g_bNewFileRenamed s' = g_bNewFileRenamed s" by (subst e) simp
  show "g_iRenamedItem s' = g_iRenamedItem s" by (subst e) simp
  show "itemIdCounter s' = itemIdCounter s" by (subst e) simp
  show "m_uniqueFolderId s' = m_uniqueFolderId s" by (subst e) simp
  show "m_FileSelectionList s' = m_FileSelectionList s" by (subst e) simp
  show "m_AlteredList s' = m_AlteredList s" by (subst e) simp
  show "insertSorted s' = insertSorted s" by (subst e) simp
  show "m_DroppedFileNameList s' = m_DroppedFileNameList s" by (subst e) simp
  show "SortStub s' = SortStub s" by (subst e) simp
  show "IsFileFiltered s' = IsFileFiltered s" by (subst e) simp
  show "m_iDropped s' = m_iDropped s" by (subst e) simp
  show "fileSelectionSize s' = fileSelectionSize s" by (subst e) simp
qed

text \<open>The part of \<^verbatim>\<open>DirectoryAltered\<close> after the loop.\<close>

lemma DirectoryAltered_after_loop:
  assumes "DirectoryAltered_loop world 0 (m_AlteredList s) s = Some s1"
  shows "\<exists>s3. DirectoryAltered world s = Some (s3\<lparr>m_FileSelectionList :=
            fst (select_items (m_FileSelectionList s1) False (s1\<lparr>m_iDropped := -1, m_AlteredList := []\<rparr>))\<rparr>)
          \<and> s3 = snd (select_items (m_FileSelectionList s1) False (s1\<lparr>m_iDropped := -1, m_AlteredList := []\<rparr>))
          \<and> presentation_only (s1\<lparr>m_iDropped := -1, m_AlteredList := []\<rparr>) s3"
  using assms presentation_only_select_items
  by (simp add: DirectoryAltered_def split_beta Let_def)

section \<open>The fast-rename race\<close>

lemma DirectoryAltered_fields:
  assumes "DirectoryAltered_loop world 0 (m_AlteredList s) s = Some s1"
  shows "\<exists>s'. DirectoryAltered world s = Some s'
     \<and> m_itemInfoMap s' = m_itemInfoMap s1 \<and> m_FilesAdded s' = m_FilesAdded s1
     \<and> awaitingAddList s' = awaitingAddList s1 \<and> totalDirSize s' = totalDirSize s1
     \<and> g_bNewFileRenamed s' = g_bNewFileRenamed s1 \<and> g_iRenamedItem s' = g_iRenamedItem s1
     \<and> itemIdCounter s' = itemIdCounter s1 \<and> m_uniqueFolderId s' = m_uniqueFolderId s1
     \<and> insertSorted s' = insertSorted s1 \<and> m_DroppedFileNameList s' = m_DroppedFileNameList s1
     \<and> SortStub s' = SortStub s1 \<and> IsFileFiltered s' = IsFileFiltered s1
     \<and> m_AlteredList s' = []"
proof -
  from DirectoryAltered_after_loop [OF assms] obtain s3 kept where
    d: "DirectoryAltered world s = Some (s3\<lparr>m_FileSelectionList := kept\<rparr>)"
    and p: "presentation_only (s1\<lparr>m_iDropped := -1, m_AlteredList := []\<rparr>) s3"
    by blast
  show ?thesis
    using d presentation_only_fields [OF p] by simp
qed

lemma process_added:
  "f = m_uniqueFolderId s \<Longrightarrow> ProcessAlteredFile fs (notification FILE_ACTION_ADDED n f) s
     = Some (OnFileAdded fs n s)"
  by (simp add: ProcessAlteredFile_def notification_def)


lemma process_removed:
  "f = m_uniqueFolderId s \<Longrightarrow> ProcessAlteredFile fs (notification FILE_ACTION_REMOVED n f) s
     = Some (OnFileRemoved n s)"
  by (simp add: ProcessAlteredFile_def notification_def act_defs)

lemma process_renamed_old:
  "f = m_uniqueFolderId s \<Longrightarrow> ProcessAlteredFile fs (notification FILE_ACTION_RENAMED_OLD_NAME n f) s
     = Some (OnFileRenamedOldName fs n s)"
  by (simp add: ProcessAlteredFile_def notification_def act_defs)

lemma process_renamed_new:
  "f = m_uniqueFolderId s \<Longrightarrow> ProcessAlteredFile fs (notification FILE_ACTION_RENAMED_NEW_NAME n f) s
     = Some (OnFileRenamedNewName fs n s)"
  by (simp add: ProcessAlteredFile_def notification_def act_defs)

lemma first_named_count:
  "first_named b m = None \<Longrightarrow> filter (\<lambda>entry. cFileName (wfd (snd entry)) = b) m = []"
  by (induction b m rule: first_named.induct) (auto split: if_splits)

lemma map_of_fresh_append:
  "c \<notin> set (map fst m) \<Longrightarrow> map_of (m @ [(c, v)]) c = Some v"
  by (induction m) auto

lemma map_of_old_append:
  "k \<in> set (map fst m) \<Longrightarrow> map_of (m @ [(c, v)]) k = map_of m k"
  by (induction m) auto

text \<open>The rename-from and rename-to of the race, from a state whose list of unresolved
  adds is exactly the old name.\<close>

lemma fast_rename_handlers:
  assumes "awaitingAddList t = []" and "m_FilesAdded t = [a]"
    and "SHParseDisplayName w b" and "SHBindToParent w b"
    and "GetItemInformation w b = Some info"
  shows "m_itemInfoMap (OnFileRenamedNewName w b (OnFileRenamedOldName w' a t))
           = m_itemInfoMap t @ [(itemIdCounter t, info)]"
    and "m_FilesAdded (OnFileRenamedNewName w b (OnFileRenamedOldName w' a t)) = []"
    and "\<not> g_bNewFileRenamed (OnFileRenamedNewName w b (OnFileRenamedOldName w' a t))"
    and "m_uniqueFolderId (OnFileRenamedOldName w' a t) = m_uniqueFolderId t"
proof -
  let ?t1 = "OnFileRenamedOldName w' a t"
  have t1: "?t1 = t\<lparr>g_bNewFileRenamed := True, m_FilesAdded := []\<rparr>"
    using assms(2) by (simp add: OnFileRenamedOldName_def)
  have aw: "awaitingAddList ?t1 = []" using assms(1) by (simp add: t1)
  have r: "OnFileRenamedNewName w b ?t1 = (OnFileAdded w b ?t1)\<lparr>g_bNewFileRenamed := False\<rparr>"
    by (simp add: OnFileRenamedNewName_def t1)
  show "m_itemInfoMap (OnFileRenamedNewName w b ?t1) = m_itemInfoMap t @ [(itemIdCounter t, info)]"
    unfolding r OnFileAdded_resolved [OF aw assms(3,4,5)] by (simp add: t1)
  show "m_FilesAdded (OnFileRenamedNewName w b ?t1) = []"
    unfolding r OnFileAdded_resolved [OF aw assms(3,4,5)] by (simp add: t1)
  show "\<not> g_bNewFileRenamed (OnFileRenamedNewName w b ?t1)"
    unfolding r by simp
  show "m_uniqueFolderId ?t1 = m_uniqueFolderId t" by (simp add: t1)
qed

lemma fast_rename_outcomeI:
  assumes "well_formed s" and "first_named b (m_itemInfoMap s) = None"
    and "cFileName (wfd info) = b"
    and "m_itemInfoMap s' = m_itemInfoMap s @ [(itemIdCounter s, info)]"
    and "m_FilesAdded s' = []" and "\<not> g_bNewFileRenamed s'"
  shows "fast_rename_outcome s b info s'"
proof -
  have fresh: "itemIdCounter s \<notin> set (map fst (m_itemInfoMap s))"
    using assms(1) by (auto simp: well_formed_def list_all_iff)
  show ?thesis
    unfolding fast_rename_outcome_def assms(4)
    using assms(3,5,6) first_named_count [OF assms(2)] map_of_fresh_append [OF fresh]
    by simp
qed

text \<open>
  Claim C5. Let the browser be consistent, with an empty list of unresolved adds and no
  stored item named \<open>b\<close>. An add notification for \<open>a\<close> that cannot be resolved,
  then the rename-from for \<open>a\<close> and the rename-to for \<open>b\<close>, where \<open>b\<close> resolves
  when its notification is handled, end in a state with exactly one stored item named
  \<open>b\<close> (the metadata resolved for \<open>b\<close>, under a fresh id) and an empty list of
  unresolved adds. This holds when the three notifications are one batch and when the
  add is one batch and the two rename notifications are the next one.
\<close>

theorem fast_rename_race:
  assumes "well_formed s" and "m_FilesAdded s = []"
    and "first_named b (m_itemInfoMap s) = None"
    and "f = m_uniqueFolderId s"
    and "\<not> (SHParseDisplayName w_add a \<and> SHBindToParent w_add a)"
    and "SHParseDisplayName w_to b" and "SHBindToParent w_to b"
    and "GetItemInformation w_to b = Some info" and "cFileName (wfd info) = b"
    and "world 0 = w_add" and "world 2 = w_to"
    and "world1 0 = w_add" and "world2 1 = w_to"
  shows "(\<exists>s'. DirectoryAltered world
                 (s\<lparr>m_AlteredList := [notification FILE_ACTION_ADDED a f,
                                       notification FILE_ACTION_RENAMED_OLD_NAME a f,
                                       notification FILE_ACTION_RENAMED_NEW_NAME b f]\<rparr>) = Some s'
               \<and> fast_rename_outcome s b info s')
       \<and> (\<exists>s1 s'. DirectoryAltered world1 (s\<lparr>m_AlteredList := [notification FILE_ACTION_ADDED a f]\<rparr>)
                     = Some s1
               \<and> DirectoryAltered world2
                   (s1\<lparr>m_AlteredList := [notification FILE_ACTION_RENAMED_OLD_NAME a f,
                                          notification FILE_ACTION_RENAMED_NEW_NAME b f]\<rparr>) = Some s'
               \<and> fast_rename_outcome s b info s')"
proof
  have aw: "awaitingAddList s = []" using assms(1) by (simp add: well_formed_def)
  let ?A = "notification FILE_ACTION_ADDED a f"
  let ?F = "notification FILE_ACTION_RENAMED_OLD_NAME a f"
  let ?T = "notification FILE_ACTION_RENAMED_NEW_NAME b f"
  {
    fix batch :: "AlteredFile_t list" and w
    let ?s0 = "s\<lparr>m_AlteredList := batch\<rparr>"
    have "OnFileAdded w_add a ?s0 = ?s0\<lparr>m_FilesAdded := [a]\<rparr>"
      using OnFileAdded_unresolved [OF assms(5), of ?s0] assms(2) by simp
  } note add = this
  show "\<exists>s'. DirectoryAltered world (s\<lparr>m_AlteredList := [?A, ?F, ?T]\<rparr>) = Some s'
               \<and> fast_rename_outcome s b info s'"
  proof -
    let ?s0 = "s\<lparr>m_AlteredList := [?A, ?F, ?T]\<rparr>"
    let ?t = "?s0\<lparr>m_FilesAdded := [a]\<rparr>"
    let ?s3 = "OnFileRenamedNewName w_to b (OnFileRenamedOldName (world (Suc 0)) a ?t)"
    have ft: "f = m_uniqueFolderId ?s0" "f = m_uniqueFolderId ?t" using assms(4) by simp_all
    have h: "awaitingAddList ?t = []" "m_FilesAdded ?t = [a]" using aw by simp_all
    note fr = fast_rename_handlers [OF h assms(6,7,8), of "world (Suc 0)"]
    have f1: "f = m_uniqueFolderId (OnFileRenamedOldName (world (Suc 0)) a ?t)"
      using fr(4) ft by simp
    have p1: "ProcessAlteredFile w_add ?A ?s0 = Some ?t"
      using process_added [OF ft(1), of w_add a] by (simp add: add)
    have p2: "ProcessAlteredFile (world (Suc 0)) ?F ?t = Some (OnFileRenamedOldName (world (Suc 0)) a ?t)"
      by (rule process_renamed_old [OF ft(2)])
    have p3: "ProcessAlteredFile w_to ?T (OnFileRenamedOldName (world (Suc 0)) a ?t) = Some ?s3"
      by (rule process_renamed_new [OF f1])
    have loop: "DirectoryAltered_loop world 0 (m_AlteredList ?s0) ?s0 = Some ?s3"
      using p1 p2 p3 assms(10,11) by (simp add: numeral_2_eq_2)
    from DirectoryAltered_fields [OF loop] obtain s' where
      s': "DirectoryAltered world ?s0 = Some s'" "m_itemInfoMap s' = m_itemInfoMap ?s3"
        "m_FilesAdded s' = m_FilesAdded ?s3" "g_bNewFileRenamed s' = g_bNewFileRenamed ?s3"
      by blast
    have "fast_rename_outcome s b info s'"
      by (rule fast_rename_outcomeI [OF assms(1,3,9)]) (simp_all add: s' fr)
    then show ?thesis using s'(1) by blast
  qed
  show "\<exists>s1 s'. DirectoryAltered world1 (s\<lparr>m_AlteredList := [?A]\<rparr>) = Some s1
               \<and> DirectoryAltered world2 (s1\<lparr>m_AlteredList := [?F, ?T]\<rparr>) = Some s'
               \<and> fast_rename_outcome s b info s'"
  proof -
    let ?s0 = "s\<lparr>m_AlteredList := [?A]\<rparr>"
    let ?t = "?s0\<lparr>m_FilesAdded := [a]\<rparr>"
    have ft: "f = m_uniqueFolderId ?s0" using assms(4) by simp
    have p1: "ProcessAlteredFile w_add ?A ?s0 = Some ?t"
      using process_added [OF ft, of w_add a] by (simp add: add)
    have loop1: "DirectoryAltered_loop world1 0 (m_AlteredList ?s0) ?s0 = Some ?t"
      using p1 assms(12) by simp
    from DirectoryAltered_fields [OF loop1] obtain s1 where
      s1: "DirectoryAltered world1 ?s0 = Some s1" "m_itemInfoMap s1 = m_itemInfoMap s"
        "m_FilesAdded s1 = [a]" "awaitingAddList s1 = []" "itemIdCounter s1 = itemIdCounter s"
        "m_uniqueFolderId s1 = f"
      using aw assms(4) by auto
    let ?u0 = "s1\<lparr>m_AlteredList := [?F, ?T]\<rparr>"
    let ?u3 = "OnFileRenamedNewName w_to b (OnFileRenamedOldName (world2 0) a ?u0)"
    have h: "awaitingAddList ?u0 = []" "m_FilesAdded ?u0 = [a]" using s1 by simp_all
    note fr = fast_rename_handlers [OF h assms(6,7,8), of "world2 0"]
    have fu: "f = m_uniqueFolderId ?u0" using s1(6) by simp
    have f1: "f = m_uniqueFolderId (OnFileRenamedOldName (world2 0) a ?u0)"
      using fr(4) fu by simp
    have p2: "ProcessAlteredFile (world2 0) ?F ?u0 = Some (OnFileRenamedOldName (world2 0) a ?u0)"
      by (rule process_renamed_old [OF fu])
    have p3: "ProcessAlteredFile w_to ?T (OnFileRenamedOldName (world2 0) a ?u0) = Some ?u3"
      by (rule process_renamed_new [OF f1])
    have loop2: "DirectoryAltered_loop world2 0 (m_AlteredList ?u0) ?u0 = Some ?u3"
      using p2 p3 assms(13) by simp
    from DirectoryAltered_fields [OF loop2] obtain s' where
      s': "DirectoryAltered world2 ?u0 = Some s'" "m_itemInfoMap s' = m_itemInfoMap ?u3"
        "m_FilesAdded s' = m_FilesAdded ?u3" "g_bNewFileRenamed s' = g_bNewFileRenamed ?u3"
      by blast
    have "fast_rename_outcome s b info s'"
      by (rule fast_rename_outcomeI [OF assms(1,3,9)]) (simp_all add: s' fr s1)
    then show ?thesis using s1(1) s'(1) by blast
  qed
qed


theorem fast_rename_race_witness:
  "well_formed empty_browser \<and> m_FilesAdded empty_browser = []
   \<and> first_named ''b.txt'' (m_itemInfoMap empty_browser) = None
   \<and> 1 = m_uniqueFolderId empty_browser
   \<and> \<not> (SHParseDisplayName no_files ''a.tmp'' \<and> SHBindToParent no_files ''a.tmp'')
   \<and> SHParseDisplayName (one_file ''b.txt'' 5) ''b.txt''
   \<and> SHBindToParent (one_file ''b.txt'' 5) ''b.txt''
   \<and> GetItemInformation (one_file ''b.txt'' 5) ''b.txt'' = Some \<lparr>wfd = file_data ''b.txt'' 5\<rparr>
   \<and> cFileName (wfd \<lparr>wfd = file_data ''b.txt'' 5\<rparr>) = ''b.txt''
   \<and> (\<exists>s'. DirectoryAltered (\<lambda>k. if k = 2 then one_file ''b.txt'' 5 else no_files)
                 (empty_browser\<lparr>m_AlteredList :=
                    [notification FILE_ACTION_ADDED ''a.tmp'' 1,
                     notification FILE_ACTION_RENAMED_OLD_NAME ''a.tmp'' 1,
                     notification FILE_ACTION_RENAMED_NEW_NAME ''b.txt'' 1]\<rparr>) = Some s'
             \<and> fast_rename_outcome empty_browser ''b.txt'' \<lparr>wfd = file_data ''b.txt'' 5\<rparr> s')
   \<and> (\<exists>s1 s'. DirectoryAltered (\<lambda>k. no_files)
                    (empty_browser\<lparr>m_AlteredList := [notification FILE_ACTION_ADDED ''a.tmp'' 1]\<rparr>)
                  = Some s1
             \<and> DirectoryAltered (\<lambda>k. one_file ''b.txt'' 5)
                    (s1\<lparr>m_AlteredList :=
                       [notification FILE_ACTION_RENAMED_OLD_NAME ''a.tmp'' 1,
                        notification FILE_ACTION_RENAMED_NEW_NAME ''b.txt'' 1]\<rparr>) = Some s'
             \<and> fast_rename_outcome empty_browser ''b.txt'' \<lparr>wfd = file_data ''b.txt'' 5\<rparr> s')"
proof -
  have h1: "well_formed empty_browser" by (simp add: well_formed_def ex_defs)
  have h2: "m_FilesAdded empty_browser = []" by (simp add: ex_defs)
  have h3: "first_named ''b.txt'' (m_itemInfoMap empty_browser) = None" by (simp add: ex_defs)
  have h4: "1 = m_uniqueFolderId empty_browser" by (simp add: ex_defs)
  have h5: "\<not> (SHParseDisplayName no_files ''a.tmp'' \<and> SHBindToParent no_files ''a.tmp'')"
    by (simp add: ex_defs)
  have h6: "SHParseDisplayName (one_file ''b.txt'' 5) ''b.txt''" by (simp add: ex_defs)
  have h7: "SHBindToParent (one_file ''b.txt'' 5) ''b.txt''" by (simp add: ex_defs)
  have h8: "GetItemInformation (one_file ''b.txt'' 5) ''b.txt'' = Some \<lparr>wfd = file_data ''b.txt'' 5\<rparr>"
    by (simp add: ex_defs)
  have h9: "cFileName (wfd \<lparr>wfd = file_data ''b.txt'' 5\<rparr>) = ''b.txt''" by (simp add: ex_defs)
  have h10: "(\<lambda>k::nat. if k = 2 then one_file ''b.txt'' 5 else no_files) 0 = no_files" by simp
  have h11: "(\<lambda>k::nat. if k = 2 then one_file ''b.txt'' 5 else no_files) 2 = one_file ''b.txt'' 5"
    by simp
  have h12: "(\<lambda>k::nat. no_files) 0 = no_files" by simp
  have h13: "(\<lambda>k::nat. one_file ''b.txt'' 5) 1 = one_file ''b.txt'' 5" by simp
  note r = fast_rename_race [OF h1 h2 h3 h4 h5 h6 h7 h8 h9 h10 h11 h12 h13]
  show ?thesis using h1 h2 h3 h4 h5 h6 h7 h8 h9 r by blast
qed


section \<open>A modification right after the add\<close>

lemma first_index_middle:
  assumes "\<forall>x \<in> set xs. \<not> P x" and "P y"
  shows "first_index P (xs @ y # ys) = int (length xs)"
  using assms by (induction xs) (auto simp: Let_def)

lemma item_name_old_append:
  "k \<in> set (map fst m) \<Longrightarrow> item_name (m @ [(c, v)]) k = item_name m k"
  using map_of_old_append [of k m c v] by (simp add: item_name_def del: map_of_append)


text \<open>Where the row of a freshly added file is found when no listed item had its name.\<close>

lemma Locate_after_add:
  assumes wf: "well_formed s" and none: "LocateFileItemIndex s name = -1"
    and nm: "cFileName (wfd info) = name"
  defines "p \<equiv> added_position name info s"
  defines "s1 \<equiv> s\<lparr>m_itemInfoMap := m_itemInfoMap s @ [(itemIdCounter s, info)],
       totalDirSize := totalDirSize s + QuadPart (wfd info),
       itemIdCounter := itemIdCounter s + 1,
       m_hListView := take p (m_hListView s) @ new_row (itemIdCounter s) # drop p (m_hListView s)\<rparr>"
  shows "LocateFileItemIndex s1 name = int p"
    and "ListView_GetItem (m_hListView s1) (int p) = Some (itemIdCounter s)"
    and "\<not> ListView_IsSelected (m_hListView s1) (int p)"
proof -
  let ?c = "itemIdCounter s" and ?lv = "m_hListView s" and ?m = "m_itemInfoMap s"
  have fresh: "?c \<notin> set (map fst ?m)"
    using wf by (auto simp: well_formed_def list_all_iff)
  have ple: "p \<le> length ?lv" unfolding p_def by (rule added_position_le)
  have old: "\<forall>row \<in> set ?lv. item_name (?m @ [(?c, info)]) (lParam row) \<noteq> Some name"
  proof
    fix row assume r: "row \<in> set ?lv"
    then have k: "lParam row \<in> set (map fst ?m)"
      using wf by (auto simp: well_formed_def list_all_iff)
    have "item_name ?m (lParam row) \<noteq> Some name"
      using none r by (auto simp: LocateFileItemIndex_def first_index_none)
    then show "item_name (?m @ [(?c, info)]) (lParam row) \<noteq> Some name"
      by (simp add: item_name_old_append [OF k])
  qed
  have new: "item_name (?m @ [(?c, info)]) (lParam (new_row ?c)) = Some name"
    using nm map_of_fresh_append [OF fresh, of info]
    by (simp add: item_name_def new_row_def del: map_of_append)
  have before: "\<forall>row \<in> set (take p ?lv). item_name (?m @ [(?c, info)]) (lParam row) \<noteq> Some name"
    using old by (meson in_set_takeD)
  have "first_index (\<lambda>row. item_name (?m @ [(?c, info)]) (lParam row) = Some name)
          (take p ?lv @ new_row ?c # drop p ?lv) = int (length (take p ?lv))"
    by (rule first_index_middle) (use before new in auto)
  then show "LocateFileItemIndex s1 name = int p"
    using ple by (simp add: LocateFileItemIndex_def s1_def min_def)
  show "ListView_GetItem (m_hListView s1) (int p) = Some ?c"
    using ple by (simp add: ListView_GetItem_def lv_valid_def s1_def nth_append new_row_def)
  show "\<not> ListView_IsSelected (m_hListView s1) (int p)"
    using ple by (simp add: ListView_IsSelected_def lv_valid_def s1_def nth_append new_row_def)
qed











section \<open>Replaying the selection requests\<close>

lemma IsSelected_SelectItem:
  "ListView_IsSelected (m_hListView (SelectItem i s)) j
     \<longleftrightarrow> ListView_IsSelected (m_hListView s) j \<or> (j = i \<and> lv_valid (m_hListView s) i)"
  by (auto simp: SelectItem_def ListView_IsSelected_def lv_valid_def nth_list_update)

lemma IsSelected_FocusItem:
  "ListView_IsSelected (m_hListView (FocusItem i s)) j = ListView_IsSelected (m_hListView s) j"
  by (auto simp: FocusItem_def ListView_IsSelected_def lv_valid_def nth_list_update
      split: if_splits)

lemma Locate_valid:
  "LocateFileItemIndex s n \<noteq> -1 \<Longrightarrow> lv_valid (m_hListView s) (LocateFileItemIndex s n)"
  unfolding LocateFileItemIndex_def lv_valid_def by (rule first_index_range)

lemma select_items_mono:
  "ListView_IsSelected (m_hListView s) j
     \<Longrightarrow> ListView_IsSelected (m_hListView (snd (select_items names b s))) j"
proof (induction names arbitrary: b s)
  case Nil
  then show ?case by simp
next
  case (Cons n names)
  show ?case
  proof (cases "LocateFileItemIndex s n = -1")
    case True
    then show ?thesis using Cons by (simp add: split_beta)
  next
    case False
    then show ?thesis
      using Cons by (simp add: Let_def IsSelected_SelectItem IsSelected_FocusItem)
  qed
qed

lemma select_items_selected:
  "n \<in> set names \<Longrightarrow> LocateFileItemIndex s n \<noteq> -1
     \<Longrightarrow> ListView_IsSelected (m_hListView (snd (select_items names b s))) (LocateFileItemIndex s n)"
proof (induction names arbitrary: b s)
  case Nil
  then show ?case by simp
next
  case (Cons x names)
  show ?case
  proof (cases "LocateFileItemIndex s x = -1")
    case True
    then show ?thesis using Cons by (auto simp: split_beta)
  next
    case False
    let ?i = "LocateFileItemIndex s x"
    let ?s2 = "if b then SelectItem ?i s else FocusItem ?i (SelectItem ?i s)"
    have step: "select_items (x # names) b s = select_items names True ?s2"
      using False by (simp add: Let_def)
    have L: "LocateFileItemIndex ?s2 n = LocateFileItemIndex s n"
      by (simp add: Locate_SelectItem Locate_FocusItem)
    show ?thesis
    proof (cases "n = x")
      case True
      have "ListView_IsSelected (m_hListView ?s2) ?i"
        using Locate_valid [OF False] by (simp add: IsSelected_SelectItem IsSelected_FocusItem)
      then show ?thesis unfolding step True by (rule select_items_mono)
    next
      case ne: False
      then have "n \<in> set names" using Cons.prems(1) by simp
      from Cons.IH [OF this, of ?s2 True] Cons.prems(2) show ?thesis
        unfolding step L by simp
    qed
  qed
qed

lemma Locate_select_items:
  "LocateFileItemIndex (snd (select_items names b s)) n = LocateFileItemIndex s n"
proof (induction names arbitrary: b s)
  case Nil
  then show ?case by simp
next
  case (Cons x names)
  show ?case
  proof (cases "LocateFileItemIndex s x = -1")
    case True
    then show ?thesis using Cons by (simp add: split_beta)
  next
    case False
    then show ?thesis
      using Cons by (simp add: Let_def Locate_SelectItem Locate_FocusItem)
  qed
qed

lemma Locate_after_loop:
  "LocateFileItemIndex (s\<lparr>m_iDropped := d, m_AlteredList := l\<rparr>) n = LocateFileItemIndex s n"
  by (simp add: LocateFileItemIndex_def)

lemma Locate_selection_list:
  "LocateFileItemIndex (s\<lparr>m_FileSelectionList := l\<rparr>) n = LocateFileItemIndex s n"
  by (simp add: LocateFileItemIndex_def)

lemma selection_pass:
  assumes "DirectoryAltered_loop world 0 (m_AlteredList s) s = Some s1"
  shows "\<exists>s'. DirectoryAltered world s = Some s'
     \<and> m_FileSelectionList s' =
         filter (\<lambda>n. LocateFileItemIndex s1 n = -1) (m_FileSelectionList s1)
     \<and> lvCalls s' = lvCalls s1 @
         (case filter (\<lambda>n. LocateFileItemIndex s1 n \<noteq> -1) (m_FileSelectionList s1) of
            [] \<Rightarrow> []
          | n # ns \<Rightarrow>
              SelectItemCall (LocateFileItemIndex s1 n) True
              # FocusItemCall (LocateFileItemIndex s1 n) True
              # map (\<lambda>m. SelectItemCall (LocateFileItemIndex s1 m) True) ns)
     \<and> (\<forall>n \<in> set (m_FileSelectionList s1). LocateFileItemIndex s1 n \<noteq> -1 \<longrightarrow>
           ListView_IsSelected (m_hListView s') (LocateFileItemIndex s1 n))
     \<and> (\<forall>n. LocateFileItemIndex s' n = LocateFileItemIndex s1 n)"
proof -
  let ?s2 = "s1\<lparr>m_iDropped := -1, m_AlteredList := []\<rparr>"
  let ?r = "select_items (m_FileSelectionList s1) False ?s2"
  have d: "DirectoryAltered world s = Some ((snd ?r)\<lparr>m_FileSelectionList := fst ?r\<rparr>)"
    using assms by (simp add: DirectoryAltered_def split_beta Let_def)
  have L: "LocateFileItemIndex ?s2 = LocateFileItemIndex s1"
    by (rule ext) (rule Locate_after_loop)
  have k: "fst ?r = filter (\<lambda>n. LocateFileItemIndex s1 n = -1) (m_FileSelectionList s1)"
    unfolding select_items_kept L ..
  have c: "lvCalls (snd ?r) = lvCalls s1 @
         (case filter (\<lambda>n. LocateFileItemIndex s1 n \<noteq> -1) (m_FileSelectionList s1) of
            [] \<Rightarrow> []
          | n # ns \<Rightarrow>
              SelectItemCall (LocateFileItemIndex s1 n) True
              # FocusItemCall (LocateFileItemIndex s1 n) True
              # map (\<lambda>m. SelectItemCall (LocateFileItemIndex s1 m) True) ns)"
    unfolding select_items_calls L by (simp add: Let_def)
  have sel: "\<forall>n \<in> set (m_FileSelectionList s1). LocateFileItemIndex s1 n \<noteq> -1 \<longrightarrow>
           ListView_IsSelected (m_hListView (snd ?r)) (LocateFileItemIndex s1 n)"
    using select_items_selected [of _ "m_FileSelectionList s1" ?s2 False] unfolding L by blast
  have loc: "\<forall>n. LocateFileItemIndex ((snd ?r)\<lparr>m_FileSelectionList := fst ?r\<rparr>) n
                = LocateFileItemIndex s1 n"
    by (simp add: Locate_selection_list Locate_select_items Locate_after_loop)
  show ?thesis
    using d k c sel loc by simp
qed


lemma selection_after_add:
  assumes wf: "well_formed s" and none: "LocateFileItemIndex s f = -1"
    and batch: "m_AlteredList s = [notification FILE_ACTION_ADDED f (m_uniqueFolderId s)]"
    and req: "m_FileSelectionList s = [f]"
    and res: "SHParseDisplayName (world 0) f" "SHBindToParent (world 0) f"
      "GetItemInformation (world 0) f = Some info" "cFileName (wfd info) = f"
  defines "p \<equiv> int (added_position f info s)"
  shows "\<exists>s'. DirectoryAltered world s = Some s'
     \<and> m_FileSelectionList s' = []
     \<and> lvCalls s' = lvCalls s @ [SelectItemCall p True, FocusItemCall p True]
     \<and> ListView_GetItem (m_hListView s') p = Some (itemIdCounter s)
     \<and> item_name (m_itemInfoMap s') (itemIdCounter s) = Some f
     \<and> ListView_IsSelected (m_hListView s') p
     \<and> LVIS_FOCUSED (m_hListView s' ! nat p)"
proof -
  have aw: "awaitingAddList s = []" using wf by (simp add: well_formed_def)
  have fresh: "itemIdCounter s \<notin> set (map fst (m_itemInfoMap s))"
    using wf by (auto simp: well_formed_def list_all_iff)
  note a = OnFileAdded_resolved [OF aw res(1,2,3)]
  note l = Locate_after_add [OF wf none res(4)]
  let ?s1 = "OnFileAdded (world 0) f s"
  let ?s2 = "?s1\<lparr>m_iDropped := -1, m_AlteredList := []\<rparr>"
  have loop: "DirectoryAltered_loop world 0 (m_AlteredList s) s = Some ?s1"
    unfolding batch using process_added [OF refl, of "world 0" f s] by simp
  have L2: "LocateFileItemIndex ?s2 f = p"
    unfolding Locate_after_loop a p_def by (rule l(1))
  have v: "lv_valid (m_hListView ?s1) p"
    using Locate_valid [of ?s1 f] l(1) unfolding a p_def by simp
  have g: "ListView_GetItem (m_hListView ?s1) p = Some (itemIdCounter s)"
    unfolding a p_def by (rule l(2))
  have r1: "m_FileSelectionList ?s1 = [f]" unfolding a using req by simp
  have p0: "p \<noteq> -1" unfolding p_def by simp
  have sel: "select_items [f] False ?s2 = ([], FocusItem p (SelectItem p ?s2))"
    using L2 p0 by (simp add: Let_def)
  have d: "DirectoryAltered world s
      = Some ((FocusItem p (SelectItem p ?s2))\<lparr>m_FileSelectionList := []\<rparr>)"
    using loop r1 sel by (simp add: DirectoryAltered_def Let_def)
  let ?s' = "(FocusItem p (SelectItem p ?s2))\<lparr>m_FileSelectionList := []\<rparr>"
  have c: "lvCalls ?s' = lvCalls s @ [SelectItemCall p True, FocusItemCall p True]"
    by (simp add: calls_FocusItem calls_SelectItem a)
  have m: "m_itemInfoMap ?s' = m_itemInfoMap s @ [(itemIdCounter s, info)]"
    by (simp add: store_FocusItem store_SelectItem a)
  have nm: "item_name (m_itemInfoMap ?s') (itemIdCounter s) = Some f"
    unfolding m using res(4) map_of_fresh_append [OF fresh, of info]
    by (simp add: item_name_def del: map_of_append)
  have v2: "lv_valid (m_hListView ?s2) p" using v by simp
  have g2: "lParam (m_hListView ?s2 ! nat p) = itemIdCounter s"
    using g v by (simp add: ListView_GetItem_def)
  have np: "nat p < length (m_hListView ?s2)"
    using v2 by (auto simp: lv_valid_def)
  have gi: "ListView_GetItem (m_hListView ?s') p = Some (itemIdCounter s)"
    using v2 g2 np by (simp add: FocusItem_def SelectItem_def ListView_GetItem_def lv_valid_def)
  have si: "ListView_IsSelected (m_hListView ?s') p"
    using v2 by (simp add: IsSelected_FocusItem IsSelected_SelectItem)
  have fo: "LVIS_FOCUSED (m_hListView ?s' ! nat p)"
    using v2 np by (simp add: FocusItem_def SelectItem_def lv_valid_def)
  show ?thesis using d c nm gi si fo by simp
qed


text \<open>
  Claim C10. Let \<open>s1\<close> be the state after the notifications of a batch have been
  applied. \<^verbatim>\<open>DirectoryAltered\<close> then looks every requested name up in the list view
  as it now is: the names that are found leave \<open>m_FileSelectionList\<close> and the others
  stay, in their order; the list view receives one \<^verbatim>\<open>SelectItem\<close> call per found
  name and a single \<^verbatim>\<open>FocusItem\<close> call, for the first found name; the row of
  every found name is selected afterwards. In particular, when \<open>f\<close> is requested while
  no listed item has that name and the batch is the add of \<open>f\<close>, which resolves, the
  only calls are one \<^verbatim>\<open>SelectItem\<close> and one \<^verbatim>\<open>FocusItem\<close> on the row of the new
  item, that row ends selected and focused, and no request is left.
\<close>

theorem selection_requests_resolved:
  "(DirectoryAltered_loop world 0 (m_AlteredList s) s = Some s1 \<longrightarrow>
      (\<exists>s'. DirectoryAltered world s = Some s'
         \<and> m_FileSelectionList s' =
             filter (\<lambda>n. LocateFileItemIndex s1 n = -1) (m_FileSelectionList s1)
         \<and> lvCalls s' = lvCalls s1 @
             (case filter (\<lambda>n. LocateFileItemIndex s1 n \<noteq> -1) (m_FileSelectionList s1) of
                [] \<Rightarrow> []
              | n # ns \<Rightarrow>
                  SelectItemCall (LocateFileItemIndex s1 n) True
                  # FocusItemCall (LocateFileItemIndex s1 n) True
                  # map (\<lambda>m. SelectItemCall (LocateFileItemIndex s1 m) True) ns)
         \<and> (\<forall>n \<in> set (m_FileSelectionList s1). LocateFileItemIndex s1 n \<noteq> -1 \<longrightarrow>
               ListView_IsSelected (m_hListView s') (LocateFileItemIndex s1 n))
         \<and> (\<forall>n. LocateFileItemIndex s' n = LocateFileItemIndex s1 n)))
   \<and> (well_formed s \<and> LocateFileItemIndex s f = -1
        \<and> m_AlteredList s = [notification FILE_ACTION_ADDED f (m_uniqueFolderId s)]
        \<and> m_FileSelectionList s = [f]
        \<and> SHParseDisplayName (world 0) f \<and> SHBindToParent (world 0) f
        \<and> GetItemInformation (world 0) f = Some info \<and> cFileName (wfd info) = f \<longrightarrow>
      (\<exists>s'. DirectoryAltered world s = Some s'
         \<and> m_FileSelectionList s' = []
         \<and> lvCalls s' = lvCalls s @ [SelectItemCall (int (added_position f info s)) True,
                                       FocusItemCall (int (added_position f info s)) True]
         \<and> ListView_GetItem (m_hListView s') (int (added_position f info s))
             = Some (itemIdCounter s)
         \<and> item_name (m_itemInfoMap s') (itemIdCounter s) = Some f
         \<and> ListView_IsSelected (m_hListView s') (int (added_position f info s))
         \<and> LVIS_FOCUSED (m_hListView s' ! nat (int (added_position f info s)))))"
  using selection_pass [of world s s1] selection_after_add [of s f world info]
  by blast

theorem selection_requests_resolved_witness:
  "DirectoryAltered_loop (\<lambda>k. one_file ''g'' 3) 0
      (m_AlteredList (empty_browser\<lparr>m_FileSelectionList := [''f''],
          m_AlteredList := [notification FILE_ACTION_ADDED ''g'' 1]\<rparr>))
      (empty_browser\<lparr>m_FileSelectionList := [''f''],
          m_AlteredList := [notification FILE_ACTION_ADDED ''g'' 1]\<rparr>)
     = Some (browser_g\<lparr>m_AlteredList := [notification FILE_ACTION_ADDED ''g'' 1]\<rparr>)
   \<and> (\<exists>s'. DirectoryAltered (\<lambda>k. one_file ''g'' 3)
            (empty_browser\<lparr>m_FileSelectionList := [''f''],
                m_AlteredList := [notification FILE_ACTION_ADDED ''g'' 1]\<rparr>) = Some s'
          \<and> m_FileSelectionList s' = [''f''] \<and> lvCalls s' = [])
   \<and> well_formed (browser_g\<lparr>m_AlteredList := [notification FILE_ACTION_ADDED ''f'' 1]\<rparr>)
   \<and> LocateFileItemIndex (browser_g\<lparr>m_AlteredList := [notification FILE_ACTION_ADDED ''f'' 1]\<rparr>) ''f''
       = -1
   \<and> (\<exists>s'. DirectoryAltered (\<lambda>k. one_file ''f'' 4)
            (browser_g\<lparr>m_AlteredList := [notification FILE_ACTION_ADDED ''f'' 1]\<rparr>) = Some s'
          \<and> m_FileSelectionList s' = []
          \<and> lvCalls s' = [SelectItemCall 1 True, FocusItemCall 1 True]
          \<and> ListView_GetItem (m_hListView s') 1 = Some 1
          \<and> item_name (m_itemInfoMap s') 1 = Some ''f'')"
proof -
  let ?b1 = "empty_browser\<lparr>m_FileSelectionList := [''f''],
                m_AlteredList := [notification FILE_ACTION_ADDED ''g'' 1]\<rparr>"
  let ?s1 = "browser_g\<lparr>m_AlteredList := [notification FILE_ACTION_ADDED ''g'' 1]\<rparr>"
  let ?b2 = "browser_g\<lparr>m_AlteredList := [notification FILE_ACTION_ADDED ''f'' 1]\<rparr>"
  have loop: "DirectoryAltered_loop (\<lambda>k. one_file ''g'' 3) 0 (m_AlteredList ?b1) ?b1 = Some ?s1"
    by (simp add: browser_g_def ex_defs helper_defs handler_defs act_defs Let_def)
  have pend: "LocateFileItemIndex ?s1 ''f'' = -1"
    by (simp add: browser_g_def ex_defs helper_defs)
  have r1: "m_FileSelectionList ?s1 = [''f'']" "lvCalls ?s1 = []"
    by (simp_all add: browser_g_def ex_defs)
  note gen = selection_requests_resolved [of "\<lambda>k. one_file ''g'' 3" ?b1 ?s1,
      THEN conjunct1, rule_format, OF loop]
  have first: "\<exists>s'. DirectoryAltered (\<lambda>k. one_file ''g'' 3) ?b1 = Some s'
          \<and> m_FileSelectionList s' = [''f''] \<and> lvCalls s' = []"
    using gen unfolding r1 by (auto simp: pend)
  have h1: "well_formed ?b2" by (simp add: well_formed_def browser_g_def ex_defs new_row_def)
  have h2: "LocateFileItemIndex ?b2 ''f'' = -1" by (simp add: browser_g_def ex_defs helper_defs)
  have h3: "m_AlteredList ?b2 = [notification FILE_ACTION_ADDED ''f'' (m_uniqueFolderId ?b2)]"
    by (simp add: browser_g_def ex_defs)
  have h4: "m_FileSelectionList ?b2 = [''f'']" by (simp add: browser_g_def ex_defs)
  have h5: "SHParseDisplayName (one_file ''f'' 4) ''f'' \<and> SHBindToParent (one_file ''f'' 4) ''f''
      \<and> GetItemInformation (one_file ''f'' 4) ''f'' = Some \<lparr>wfd = file_data ''f'' 4\<rparr>
      \<and> cFileName (wfd \<lparr>wfd = file_data ''f'' 4\<rparr>) = ''f''"
    by (simp add: ex_defs)
  have pos: "int (added_position ''f'' \<lparr>wfd = file_data ''f'' 4\<rparr> ?b2) = 1"
    by (simp add: added_position_def browser_g_def ex_defs new_row_def)
  have cnt: "itemIdCounter ?b2 = 1" "lvCalls ?b2 = []" by (simp_all add: browser_g_def ex_defs)
  have hyp: "well_formed ?b2 \<and> LocateFileItemIndex ?b2 ''f'' = -1
        \<and> m_AlteredList ?b2 = [notification FILE_ACTION_ADDED ''f'' (m_uniqueFolderId ?b2)]
        \<and> m_FileSelectionList ?b2 = [''f'']
        \<and> SHParseDisplayName ((\<lambda>k::nat. one_file ''f'' 4) 0) ''f''
        \<and> SHBindToParent ((\<lambda>k::nat. one_file ''f'' 4) 0) ''f''
        \<and> GetItemInformation ((\<lambda>k::nat. one_file ''f'' 4) 0) ''f'' = Some \<lparr>wfd = file_data ''f'' 4\<rparr>
        \<and> cFileName (wfd \<lparr>wfd = file_data ''f'' 4\<rparr>) = ''f''"
    using h1 h2 h3 h4 h5 by simp
  note scen = selection_requests_resolved [of "\<lambda>k. one_file ''f'' 4" ?b2 ?b2 "''f''"
      "\<lparr>wfd = file_data ''f'' 4\<rparr>", THEN conjunct2, rule_format, OF hyp]
  have second: "\<exists>s'. DirectoryAltered (\<lambda>k. one_file ''f'' 4) ?b2 = Some s'
          \<and> m_FileSelectionList s' = []
          \<and> lvCalls s' = [SelectItemCall 1 True, FocusItemCall 1 True]
          \<and> ListView_GetItem (m_hListView s') 1 = Some 1
          \<and> item_name (m_itemInfoMap s') 1 = Some ''f''"
    using scen unfolding pos cnt by auto
  show ?thesis using loop first h1 h2 second by blast
qed


section \<open>The size counters\<close>















subsection \<open>The handlers keep the counters exact\<close>



















end
